theory Spec2Isabelle
  imports Complex_Main "HOL-Library.AList" "HOL-Library.DAList" "HOL-Library.Word"
begin

section \<open>Host vocabulary\<close>

text \<open>
  Modelled from the spec: the host's closed vocabulary of named key events
  (\<open>df::interface_key\<close>) and its character-to-key mapping \<open>Screen::charToKey\<close> are
  declared outside \<open>ImTuiImpl.cpp\<close>. The spec lists them as consumed interfaces
  ("a closed vocabulary of named key events, a character-to-key-event mapping
  function"); the enum is given the members that file names, and one
  \<open>STRING_A\<close> member per character code, which is what \<open>charToKey\<close> returns.
\<close>

datatype interface_key =
    NONE
  | LEAVESCREEN
  | SELECT
  | CURSOR_UP
  | CURSOR_DOWN
  | CURSOR_LEFT
  | CURSOR_RIGHT
  | STRING_A nat

definition charToKey :: "char \<Rightarrow> interface_key" where
  "charToKey c = STRING_A (of_char c)"

section \<open>Machine numbers\<close>

subsection \<open>The type \<open>int\<close>\<close>

text \<open>
  A value of the C++ type \<open>int\<close> is an integer from \<open>-2^31\<close> up to \<open>2^31 - 1\<close>. An
  operation whose result leaves that range wraps around, which is what the two's
  complement processors of the host do. \<open>tdiv\<close> is the division of C++, which drops the
  fraction, and \<open>loop_count c\<close> the number of rounds of a loop \<open>while (c--)\<close>: \<open>c\<close> itself
  from zero up, and for a negative \<open>c\<close> the rounds until the counter has wrapped to zero.
\<close>

definition wrap32 :: "int \<Rightarrow> int" where
  "wrap32 v = (v + 2147483648) mod 4294967296 - 2147483648"

definition add32 :: "int \<Rightarrow> int \<Rightarrow> int" where
  "add32 a b = wrap32 (a + b)"

definition sub32 :: "int \<Rightarrow> int \<Rightarrow> int" where
  "sub32 a b = wrap32 (a - b)"

definition mul32 :: "int \<Rightarrow> int \<Rightarrow> int" where
  "mul32 a b = wrap32 (a * b)"

definition neg32 :: "int \<Rightarrow> int" where
  "neg32 a = wrap32 (- a)"

definition tdiv :: "int \<Rightarrow> int \<Rightarrow> int" where
  "tdiv a b = sgn a * sgn b * (\<bar>a\<bar> div \<bar>b\<bar>)"

definition loop_count :: "int \<Rightarrow> nat" where
  "loop_count c = nat (c mod 4294967296)"

subsection \<open>The type \<open>float\<close>\<close>

text \<open>
  A value of the type \<open>float\<close> is a binary32 number: finite, infinite or not a number. A
  finite value is held as the real number it denotes (the two zeros are one value: no
  operation used here tells them apart, except a division by zero, which takes the zero
  as positive). Every arithmetic operation rounds its exact result to the nearest
  binary32 number, ties to the even significand, each operation on its own.
\<close>

datatype f32 = Fin real | PInf | NInf | NaN

text \<open>\<open>log2n n\<close> is the position of the leading bit of \<open>n\<close>, \<open>ilog2 a\<close> the exponent \<open>e\<close> with
  \<open>2^e \<le> a < 2^(e+1)\<close> of a positive real, \<open>pow2 e\<close> the power \<open>2^e\<close> for an integer \<open>e\<close>, and
  \<open>rne q\<close> the integer nearest to \<open>q\<close>, the even one of two equally near.\<close>

fun log2n :: "nat \<Rightarrow> nat" where
  "log2n n = (if n < 2 then 0 else Suc (log2n (n div 2)))"

declare log2n.simps [simp del]

definition ilog2 :: "real \<Rightarrow> int" where
  "ilog2 a = (if a \<ge> 1 then int (log2n (nat \<lfloor>a\<rfloor>))
              else - int (Suc (log2n (nat (\<lceil>1 / a\<rceil> - 1)))))"

definition pow2 :: "int \<Rightarrow> real" where
  "pow2 e = (if e \<ge> 0 then 2 ^ nat e else 1 / 2 ^ nat (- e))"

definition rne :: "real \<Rightarrow> int" where
  "rne q = (let f = \<lfloor>q\<rfloor>; d = q - of_int f
            in if d < 1 / 2 then f else if d > 1 / 2 then f + 1
               else if even f then f else f + 1)"

text \<open>The spacing of the binary32 numbers around a positive real: 24 significant bits, the
  exponent not below -126. \<open>round_mag\<close> rounds a positive real to that grid and \<open>round32\<close>
  a real to binary32; a magnitude that rounds to \<open>2^128\<close> or more becomes infinite.\<close>

definition ulp32 :: "real \<Rightarrow> real" where
  "ulp32 a = pow2 (max (ilog2 a) (- 126) - 23)"

definition round_mag :: "real \<Rightarrow> real" where
  "round_mag a = of_int (rne (a / ulp32 a)) * ulp32 a"

definition round32 :: "real \<Rightarrow> f32" where
  "round32 v =
     (if v = 0 then Fin 0
      else if round_mag \<bar>v\<bar> \<ge> 2 ^ 128 then (if v > 0 then PInf else NInf)
      else Fin (if v > 0 then round_mag \<bar>v\<bar> else - round_mag \<bar>v\<bar>))"

fun fneg :: "f32 \<Rightarrow> f32" where
  "fneg (Fin a) = Fin (- a)"
| "fneg PInf = NInf"
| "fneg NInf = PInf"
| "fneg NaN = NaN"

fun fadd :: "f32 \<Rightarrow> f32 \<Rightarrow> f32" where
  "fadd NaN b = NaN"
| "fadd a NaN = NaN"
| "fadd (Fin a) (Fin b) = round32 (a + b)"
| "fadd PInf NInf = NaN"
| "fadd NInf PInf = NaN"
| "fadd PInf b = PInf"
| "fadd a PInf = PInf"
| "fadd NInf b = NInf"
| "fadd a NInf = NInf"

definition fsub :: "f32 \<Rightarrow> f32 \<Rightarrow> f32" where
  "fsub a b = fadd a (fneg b)"

text \<open>The sign of a value that is a number: -1, 0 or 1.\<close>

fun fsign :: "f32 \<Rightarrow> int" where
  "fsign (Fin a) = (if a > 0 then 1 else if a < 0 then - 1 else 0)"
| "fsign PInf = 1"
| "fsign NInf = - 1"
| "fsign NaN = 0"

definition signed_inf :: "int \<Rightarrow> f32" where
  "signed_inf sg = (if sg = 0 then NaN else if sg > 0 then PInf else NInf)"

fun fmul :: "f32 \<Rightarrow> f32 \<Rightarrow> f32" where
  "fmul NaN b = NaN"
| "fmul a NaN = NaN"
| "fmul (Fin a) (Fin b) = round32 (a * b)"
| "fmul a b = signed_inf (fsign a * fsign b)"

fun fdiv :: "f32 \<Rightarrow> f32 \<Rightarrow> f32" where
  "fdiv NaN b = NaN"
| "fdiv a NaN = NaN"
| "fdiv (Fin a) (Fin b) = (if b = 0 then signed_inf (fsign (Fin a)) else round32 (a / b))"
| "fdiv (Fin a) b = Fin 0"
| "fdiv a (Fin b) = signed_inf (fsign a * (if b < 0 then - 1 else 1))"
| "fdiv a b = NaN"

fun fabs :: "f32 \<Rightarrow> f32" where
  "fabs (Fin a) = Fin \<bar>a\<bar>"
| "fabs PInf = PInf"
| "fabs NInf = PInf"
| "fabs NaN = NaN"

text \<open>The comparisons; each is false when an operand is not a number, except \<open>!=\<close>.\<close>

fun flt :: "f32 \<Rightarrow> f32 \<Rightarrow> bool" where
  "flt NaN b = False"
| "flt a NaN = False"
| "flt (Fin a) (Fin b) = (a < b)"
| "flt PInf b = False"
| "flt a NInf = False"
| "flt NInf b = True"
| "flt a PInf = True"

fun feq :: "f32 \<Rightarrow> f32 \<Rightarrow> bool" where
  "feq NaN b = False"
| "feq a NaN = False"
| "feq a b = (a = b)"

definition fne :: "f32 \<Rightarrow> f32 \<Rightarrow> bool" where
  "fne a b = (\<not> feq a b)"

definition fge :: "f32 \<Rightarrow> f32 \<Rightarrow> bool" where
  "fge a b = (flt b a \<or> feq a b)"

text \<open>\<open>std::floor\<close>, and \<open>std::min\<close> and \<open>std::max\<close>, which return their first argument unless
  the comparison picks the second.\<close>

fun ffloor :: "f32 \<Rightarrow> f32" where
  "ffloor (Fin a) = Fin (of_int \<lfloor>a\<rfloor>)"
| "ffloor PInf = PInf"
| "ffloor NInf = NInf"
| "ffloor NaN = NaN"

definition fmin :: "f32 \<Rightarrow> f32 \<Rightarrow> f32" where
  "fmin a b = (if flt b a then b else a)"

definition fmax :: "f32 \<Rightarrow> f32 \<Rightarrow> f32" where
  "fmax a b = (if flt a b then b else a)"

text \<open>The conversions between \<open>int\<close> and \<open>float\<close>. From \<open>int\<close> the value is rounded. To
  \<open>int\<close> the fraction is dropped; for a value that no \<open>int\<close> holds the language defines no
  result, and the host's processor delivers \<open>-2^31\<close>. The members of a pen are of type
  \<open>int8_t\<close>, which keeps the low eight bits.\<close>

definition f_of_int :: "int \<Rightarrow> f32" where
  "f_of_int i = round32 (of_int i)"

fun to_int32 :: "f32 \<Rightarrow> int" where
  "to_int32 (Fin a) =
     (let t = (if 0 \<le> a then \<lfloor>a\<rfloor> else \<lceil>a\<rceil>)
      in if - 2147483648 \<le> t \<and> t < 2147483648 then t else - 2147483648)"
| "to_int32 PInf = - 2147483648"
| "to_int32 NInf = - 2147483648"
| "to_int32 NaN = - 2147483648"

definition to_int8 :: "f32 \<Rightarrow> int" where
  "to_int8 v = (to_int32 v + 128) mod 256 - 128"

section \<open>Session state\<close>

text \<open>
  A context handle is a pointer; \<open>None\<close> is \<open>nullptr\<close>. The GUI library keeps one
  process-wide current context, read by \<open>ImGui::GetCurrentContext\<close> and written by
  \<open>ImGui::SetCurrentContext\<close>; it is passed and returned explicitly.
\<close>

type_synonym ctx_ptr = "nat option"

text \<open>\<open>std::map<df::interface_key, int>\<close>: unique keys, one counter per key. The counter
  is an \<open>int\<close>: a step beyond \<open>2^31 - 1\<close> wraps around to \<open>-2^31\<close>.\<close>

type_synonym danger_map = "(interface_key, int) alist"

text \<open>The members of \<open>ui_state\<close> that the functions below read or write.\<close>

record ui_state =
  last_context :: ctx_ptr
  ctx :: ctx_ptr
  unprocessed_keys :: "interface_key set"
  pressed_mouse_keys :: "bool \<times> bool"
  danger_key_frames :: danger_map
  suppressed_keys :: "(int \<times> interface_key set) list"
  suppress_next_keyboard_passthrough :: bool
  should_pass_keyboard_up :: bool

text \<open>The constructor \<open>ui_state::ui_state()\<close>; the remaining members are default-initialised.\<close>

definition ui_state_init :: ui_state where
  "ui_state_init =
     \<lparr> last_context = None, ctx = None, unprocessed_keys = {},
       pressed_mouse_keys = (False, False), danger_key_frames = DAList.empty,
       suppressed_keys = [], suppress_next_keyboard_passthrough = False,
       should_pass_keyboard_up = False \<rparr>"

text \<open>\<open>ui_state::activate\<close> and \<open>ui_state::deactivate\<close>, on the pair of the session and the
  library's current context.\<close>

definition activate :: "ui_state \<Rightarrow> ctx_ptr \<Rightarrow> ui_state \<times> ctx_ptr" where
  "activate st cur = (st\<lparr>last_context := cur\<rparr>, ctx st)"

definition deactivate :: "ui_state \<Rightarrow> ctx_ptr \<Rightarrow> ui_state \<times> ctx_ptr" where
  "deactivate st cur = (st, last_context st)"

subsection \<open>Upward propagation of input\<close>

definition suppress_next_keyboard_feed_upwards :: "ui_state \<Rightarrow> ui_state" where
  "suppress_next_keyboard_feed_upwards st = st\<lparr>suppress_next_keyboard_passthrough := True\<rparr>"

definition suppress_next_mouse_feed_upwards :: "ui_state \<Rightarrow> ui_state" where
  "suppress_next_mouse_feed_upwards st = st\<lparr>suppress_next_keyboard_passthrough := True\<rparr>"

definition feed_upwards :: "ui_state \<Rightarrow> ui_state" where
  "feed_upwards st = st\<lparr>should_pass_keyboard_up := True\<rparr>"

text \<open>The nested loops of \<open>on_feed_end\<close> that look for a declared suppressed key among the
  delivered keys; both loops stop at the first hit.\<close>

fun skip_feed_scan :: "(int \<times> interface_key set) list \<Rightarrow> interface_key set \<Rightarrow> bool" where
  "skip_feed_scan [] keys = False"
| "skip_feed_scan ((layer, ks) # rest) keys =
     (if ks \<inter> keys \<noteq> {} then True else skip_feed_scan rest keys)"

text \<open>\<open>viewscreen::on_feed_end\<close>: the \<open>keys\<close> pointer may be null (\<open>None\<close>). Returns
  \<open>should_feed\<close>, the session and the library's current context.\<close>

definition on_feed_end ::
  "interface_key set option \<Rightarrow> ui_state \<Rightarrow> ctx_ptr \<Rightarrow> bool \<times> ui_state \<times> ctx_ptr" where
  "on_feed_end keys st cur =
     (let should_feed =
            (if should_pass_keyboard_up st \<and> \<not> suppress_next_keyboard_passthrough st
                \<and> keys \<noteq> None
             then \<not> skip_feed_scan (suppressed_keys st) (the keys)
             else False);
          st1 = st\<lparr>suppress_next_keyboard_passthrough := False\<rparr>;
          st2 = st1\<lparr>should_pass_keyboard_up := False\<rparr>;
          (st3, cur') = deactivate st2 cur
      in (should_feed, st3, cur'))"

section \<open>Input translator\<close>

text \<open>The local table \<open>to_kill_if_seen\<close> of \<open>cleanup_keys\<close>, in the key order in which a
  \<open>std::map\<close> iterates.\<close>

definition to_kill_if_seen :: "(interface_key \<times> interface_key list) list" where
  "to_kill_if_seen =
     [ (charToKey CHR ''2'', [CURSOR_DOWN]),
       (charToKey CHR ''4'', [CURSOR_LEFT]),
       (charToKey CHR ''6'', [CURSOR_RIGHT]),
       (charToKey CHR ''8'', [CURSOR_UP]) ]"

text \<open>\<open>to_kill_if_seen[k]\<close>: \<open>operator[]\<close> yields an empty vector for an absent key.\<close>

definition to_kill_at :: "interface_key \<Rightarrow> interface_key list" where
  "to_kill_at k = (case map_of to_kill_if_seen k of None \<Rightarrow> [] | Some v \<Rightarrow> v)"

text \<open>\<open>for (c : v) keys.erase(c)\<close>.\<close>

definition erase_all :: "interface_key list \<Rightarrow> interface_key set \<Rightarrow> interface_key set" where
  "erase_all v keys = fold (\<lambda>c ks. ks - {c}) v keys"

text \<open>First loop of \<open>cleanup_keys\<close>: a trigger found in the key set restarts its timer and
  erases its paired events.\<close>

fun kill_seen ::
  "(interface_key \<times> interface_key list) list \<Rightarrow> interface_key set \<Rightarrow> danger_map
     \<Rightarrow> interface_key set \<times> danger_map" where
  "kill_seen [] keys d = (keys, d)"
| "kill_seen ((trigger, v) # rest) keys d =
     (if trigger \<notin> keys then kill_seen rest keys d
      else kill_seen rest (erase_all v keys) (DAList.update trigger 0 d))"

definition max_suppress_frames :: int where
  "max_suppress_frames = 10"

text \<open>Second loop of \<open>cleanup_keys\<close>, over the entries of the timer table.\<close>

fun kill_danger :: "(interface_key \<times> int) list \<Rightarrow> interface_key set \<Rightarrow> interface_key set" where
  "kill_danger [] keys = keys"
| "kill_danger ((k, t) # rest) keys =
     (if t \<le> max_suppress_frames then kill_danger rest (erase_all (to_kill_at k) keys)
      else kill_danger rest keys)"

definition cleanup_keys ::
  "interface_key set \<Rightarrow> danger_map \<Rightarrow> interface_key set \<times> danger_map" where
  "cleanup_keys keys danger_key_time =
     (let (keys1, d1) = kill_seen to_kill_if_seen keys danger_key_time
      in (kill_danger (DAList.impl_of d1) keys1, d1))"

text \<open>\<open>for (auto& it : st.danger_key_frames) it.second++\<close>.\<close>

lift_definition age_timers :: "danger_map \<Rightarrow> danger_map"
  is "map (\<lambda>(k, t). (k, add32 t 1))"
  by (simp add: comp_def case_prod_unfold)

text \<open>The part of the library's \<open>ImGuiIO\<close> that \<open>new_frame\<close> fills from the key set and
  the mouse snapshot.\<close>

record ImGuiIO =
  KeysDown :: "interface_key set"
  MouseDown :: "bool \<times> bool"

text \<open>\<open>impl::new_frame\<close>: the cleanup pass, the ageing of every timer, then the keys that
  survive are marked down (after \<open>reset_input\<close> cleared all of them) and the mouse
  snapshot is consumed.\<close>

definition new_frame :: "interface_key set \<Rightarrow> ui_state \<Rightarrow> ImGuiIO \<times> ui_state" where
  "new_frame keys st =
     (let (keys', d) = cleanup_keys keys (danger_key_frames st);
          st1 = st\<lparr>danger_key_frames := age_timers d\<rparr>;
          io = \<lparr> KeysDown = keys', MouseDown = pressed_mouse_keys st1 \<rparr>
      in (io, st1\<lparr>pressed_mouse_keys := (False, False)\<rparr>))"

text \<open>A run of frames: \<open>ks n\<close> is the key set the host delivers on frame \<open>n\<close>.
  \<open>state_before ks st n\<close> is the session at the start of frame \<open>n\<close>, \<open>frame_io ks st n\<close>
  what frame \<open>n\<close> hands to the library.\<close>

primrec state_before :: "(nat \<Rightarrow> interface_key set) \<Rightarrow> ui_state \<Rightarrow> nat \<Rightarrow> ui_state" where
  "state_before ks st 0 = st"
| "state_before ks st (Suc n) = snd (new_frame (ks n) (state_before ks st n))"

definition frame_io :: "(nat \<Rightarrow> interface_key set) \<Rightarrow> ui_state \<Rightarrow> nat \<Rightarrow> ImGuiIO" where
  "frame_io ks st n = fst (new_frame (ks n) (state_before ks st n))"

text \<open>The key sets of a press of the left-pad digit: the digit together with the cursor
  event on frame 0, the cursor event alone on every later frame.\<close>

definition left_pad_press :: "nat \<Rightarrow> interface_key set" where
  "left_pad_press n = (if n = 0 then {charToKey CHR ''4'', CURSOR_LEFT} else {CURSOR_LEFT})"

section \<open>Host display\<close>

text \<open>
  Modelled from the spec: the host's screen module (\<open>Screen::Pen\<close>, \<open>Screen::readTile\<close>,
  \<open>Screen::paintTile\<close>, \<open>Screen::paintString\<close>, \<open>Screen::getWindowSize\<close>), the text
  conversion \<open>UTF2DF\<close> and the library's \<open>ColorConvertU32ToFloat4\<close> are declared outside
  \<open>ImTuiImpl.cpp\<close>. The spec gives the display as "a character-cell read/write
  primitive (\<open>readCell(x,y) -> (glyph, fgColor, bgColor)\<close>, \<open>writeCell(x,y,glyph,fgColor,
  bgColor)\<close>), display-dimension query" and the conversion as "returning a
  variable-length result (1 unit on success)".
\<close>

type_synonym ImVec2 = "f32 \<times> f32"
type_synonym ImVec4 = "f32 \<times> f32 \<times> f32 \<times> f32"
type_synonym ImU32 = "32 word"

text \<open>A vector of two finite components.\<close>

definition vec :: "real \<Rightarrow> real \<Rightarrow> ImVec2" where
  "vec a b = (Fin a, Fin b)"

record Pen =
  ch :: char
  fg :: int
  bg :: int

text \<open>The collaborators a draw pass consults and that it does not change.\<close>

record host =
  getWindowSize :: "int \<times> int"
  UTF2DF :: "string \<Rightarrow> string"
  ColorConvertU32ToFloat4 :: "ImU32 \<Rightarrow> ImVec4"

text \<open>Every call of the rasterizer and of the host display during a draw pass is recorded in
  order, next to the display contents it produces.\<close>

datatype call =
    DrawTriangle ImVec2 ImVec2 ImVec2 ImU32
  | ReadTile int int
  | PaintTile Pen int int
  | PaintString Pen int int string

record draw_state =
  screen :: "int \<times> int \<Rightarrow> Pen"
  calls :: "call list"

definition in_display :: "host \<Rightarrow> int \<Rightarrow> int \<Rightarrow> bool" where
  "in_display h cx cy =
     (cx \<ge> 0 \<and> cx < fst (getWindowSize h) \<and> cy \<ge> 0 \<and> cy < snd (getWindowSize h))"

definition writeCell :: "host \<Rightarrow> Pen \<Rightarrow> int \<Rightarrow> int \<Rightarrow> (int \<times> int \<Rightarrow> Pen) \<Rightarrow> (int \<times> int \<Rightarrow> Pen)" where
  "writeCell h pen cx cy scr = (if in_display h cx cy then scr((cx, cy) := pen) else scr)"

definition paintTile :: "host \<Rightarrow> Pen \<Rightarrow> int \<Rightarrow> int \<Rightarrow> draw_state \<Rightarrow> draw_state" where
  "paintTile h pen cx cy s =
     \<lparr> screen = writeCell h pen cx cy (screen s), calls = calls s @ [PaintTile pen cx cy] \<rparr>"

text \<open>\<open>paintString\<close> writes the characters of the text into consecutive cells of one row.\<close>

fun writeString :: "host \<Rightarrow> Pen \<Rightarrow> int \<Rightarrow> int \<Rightarrow> string \<Rightarrow> (int \<times> int \<Rightarrow> Pen) \<Rightarrow> (int \<times> int \<Rightarrow> Pen)" where
  "writeString h pen cx cy [] scr = scr"
| "writeString h pen cx cy (c # cs) scr =
     writeString h pen (cx + 1) cy cs (writeCell h (pen\<lparr>ch := c\<rparr>) cx cy scr)"

definition paintString :: "host \<Rightarrow> Pen \<Rightarrow> int \<Rightarrow> int \<Rightarrow> string \<Rightarrow> draw_state \<Rightarrow> draw_state" where
  "paintString h pen cx cy txt s =
     \<lparr> screen = writeString h pen cx cy txt (screen s),
       calls = calls s @ [PaintString pen cx cy txt] \<rparr>"

definition readTile :: "int \<Rightarrow> int \<Rightarrow> draw_state \<Rightarrow> Pen \<times> draw_state" where
  "readTile cx cy s = (screen s (cx, cy), s\<lparr>calls := calls s @ [ReadTile cx cy]\<rparr>)"

text \<open>The cells a recorded call writes to.\<close>

fun cells_of_call :: "call \<Rightarrow> (int \<times> int) list" where
  "cells_of_call (PaintTile pen cx cy) = [(cx, cy)]"
| "cells_of_call (PaintString pen cx cy txt) = map (\<lambda>i. (cx + int i, cy)) [0..<length txt]"
| "cells_of_call (ReadTile cx cy) = []"
| "cells_of_call (DrawTriangle p0 p1 p2 c) = []"

definition cells_written :: "call list \<Rightarrow> (int \<times> int) list" where
  "cells_written cs = concat (map cells_of_call cs)"

section \<open>Scan-convert rasterizer\<close>

text \<open>An access to a \<open>std::vector\<close> or \<open>ImVector\<close> outside its size has no defined result;
  the model makes it an error value. An index is converted to an unsigned type, so a
  negative one is outside every vector.\<close>

datatype error = OutOfRange

definition vec_get :: "'a list \<Rightarrow> int \<Rightarrow> error + 'a" where
  "vec_get xs i = (if 0 \<le> i \<and> i < int (length xs) then Inr (xs ! nat i) else Inl OutOfRange)"

definition vec_set :: "'a list \<Rightarrow> int \<Rightarrow> 'a \<Rightarrow> error + 'a list" where
  "vec_set xs i v = (if 0 \<le> i \<and> i < int (length xs) then Inr (xs[nat i := v]) else Inl OutOfRange)"

text \<open>The macro \<open>ABS\<close>.\<close>

definition ABS :: "int \<Rightarrow> int" where
  "ABS v = (if v \<ge> 0 then v else neg32 v)"

text \<open>The first statement of the loop body of \<open>ScanLine\<close>: widen the interval of row \<open>sy\<close>.\<close>

definition scan_mark :: "int \<Rightarrow> int \<Rightarrow> int \<Rightarrow> int list \<Rightarrow> error + int list" where
  "scan_mark sx sy ymax xrange =
     (if sy \<ge> 0 \<and> sy < ymax then
        (case vec_get xrange (add32 (mul32 2 sy) 0) of Inl e \<Rightarrow> Inl e | Inr lo \<Rightarrow>
         (case (if sx < lo then vec_set xrange (add32 (mul32 2 sy) 0) sx else Inr xrange) of
            Inl e \<Rightarrow> Inl e
          | Inr xrange1 \<Rightarrow>
            (case vec_get xrange1 (add32 (mul32 2 sy) 1) of Inl e \<Rightarrow> Inl e | Inr hi \<Rightarrow>
               (if sx > hi then vec_set xrange1 (add32 (mul32 2 sy) 1) sx else Inr xrange1))))
      else Inr xrange)"

text \<open>The loop \<open>while (cnt--)\<close>; the first argument is the number of rounds left.\<close>

fun scan_loop ::
  "nat \<Rightarrow> int \<Rightarrow> int \<Rightarrow> int \<Rightarrow> int \<Rightarrow> int \<Rightarrow> int \<Rightarrow> int \<Rightarrow> int \<Rightarrow> int \<Rightarrow> int \<Rightarrow> int list
     \<Rightarrow> error + int list" where
  "scan_loop 0 m n dx1 dy1 dx2 dy2 ymax sx sy k xrange = Inr xrange"
| "scan_loop (Suc cnt) m n dx1 dy1 dx2 dy2 ymax sx sy k xrange =
     (case scan_mark sx sy ymax xrange of
        Inl e \<Rightarrow> Inl e
      | Inr xrange' \<Rightarrow>
          (if add32 k n < m
           then scan_loop cnt m n dx1 dy1 dx2 dy2 ymax (add32 sx dx2) (add32 sy dy2)
                  (add32 k n) xrange'
           else scan_loop cnt m n dx1 dy1 dx2 dy2 ymax (add32 sx dx1) (add32 sy dy1)
                  (sub32 (add32 k n) m) xrange'))"

definition ScanLine :: "int \<Rightarrow> int \<Rightarrow> int \<Rightarrow> int \<Rightarrow> int \<Rightarrow> int list \<Rightarrow> error + int list" where
  "ScanLine x1 y1 x2 y2 ymax xrange =
     (let sx = sub32 x2 x1;
          sy = sub32 y2 y1;
          dx1 = (if sx > 0 then 1 else if sx < 0 then -1 else 0);
          dy1 = (if sy > 0 then 1 else if sy < 0 then -1 else 0);
          m0 = ABS sx;
          n0 = ABS sy;
          (m, n, dx2, dy2) = (if m0 < n0 then (ABS sy, ABS sx, 0, dy1) else (m0, n0, dx1, 0));
          cnt = add32 m 1;
          k = tdiv n 2
      in scan_loop (loop_count cnt) m n dx1 dy1 dx2 dy2 ymax x1 y1 k xrange)"

text \<open>The scratch table of \<open>drawTriangle\<close>: a new, empty vector, resized when its size is
  below \<open>2*ydelta\<close>.\<close>

definition resize_xrange :: "int \<Rightarrow> int list" where
  "resize_xrange ydelta =
     (if 0 < mul32 2 ydelta then replicate (nat (mul32 2 ydelta)) 0 else [])"

text \<open>The loop \<open>for (int y = 0; y < ydelta; y++)\<close> that resets the interval of every row,
  from row \<open>r\<close> on. The counter stays below \<open>ydelta\<close>, so its step does not leave \<open>int\<close>.\<close>

function reset_rows :: "int \<Rightarrow> int \<Rightarrow> int list \<Rightarrow> error + int list" where
  "reset_rows r ydelta xrange =
     (if r < ydelta
      then (case vec_set xrange (add32 (mul32 2 r) 0) 999999 of
              Inl e \<Rightarrow> Inl e
            | Inr xrange1 \<Rightarrow>
                (case vec_set xrange1 (add32 (mul32 2 r) 1) (- 999999) of
                   Inl e \<Rightarrow> Inl e
                 | Inr xrange2 \<Rightarrow> reset_rows (r + 1) ydelta xrange2))
      else Inr xrange)"
  by pat_completeness auto
termination
  by (relation "measure (\<lambda>(r, ydelta, xrange). nat (ydelta - r))") auto

declare reset_rows.simps [simp del]

text \<open>The loop \<open>while (len--)\<close> over the cells of one row; the third argument is the number
  of rounds left.\<close>

fun paint_row :: "host \<Rightarrow> Pen \<Rightarrow> nat \<Rightarrow> int \<Rightarrow> int \<Rightarrow> draw_state \<Rightarrow> draw_state" where
  "paint_row h pen 0 cx cy s = s"
| "paint_row h pen (Suc len) cx cy s =
     paint_row h pen len (add32 cx 1) cy
       (if cx \<ge> 0 \<and> cx < fst (getWindowSize h) \<and> cy \<ge> 0 \<and> cy < snd (getWindowSize h)
        then paintString h pen cx cy '' '' s else s)"

text \<open>The final loop \<open>for (int y = 0; y < ydelta; y++)\<close>, from row \<open>r\<close> on.\<close>

function paint_rows ::
  "host \<Rightarrow> Pen \<Rightarrow> int \<Rightarrow> int list \<Rightarrow> int \<Rightarrow> int \<Rightarrow> draw_state \<Rightarrow> error + draw_state" where
  "paint_rows h pen ymin xrange r ydelta s =
     (if r < ydelta
      then (case vec_get xrange (add32 (mul32 2 r) 1) of Inl e \<Rightarrow> Inl e | Inr hi \<Rightarrow>
           (case vec_get xrange (add32 (mul32 2 r) 0) of Inl e \<Rightarrow> Inl e | Inr lo \<Rightarrow>
              (if hi \<ge> lo
               then (case vec_get xrange (add32 (mul32 2 r) 0) of Inl e \<Rightarrow> Inl e | Inr cx \<Rightarrow>
                    (case vec_get xrange (add32 (mul32 2 r) 1) of Inl e \<Rightarrow> Inl e | Inr hi' \<Rightarrow>
                    (case vec_get xrange (add32 (mul32 2 r) 0) of Inl e \<Rightarrow> Inl e | Inr lo' \<Rightarrow>
                       paint_rows h pen ymin xrange (r + 1) ydelta
                         (paint_row h pen (loop_count (sub32 (add32 1 hi') lo')) cx
                            (add32 r ymin) s))))
               else paint_rows h pen ymin xrange (r + 1) ydelta s)))
      else Inr s)"
  by pat_completeness auto
termination
  by (relation "measure (\<lambda>(h, pen, ymin, xrange, r, ydelta, s). nat (ydelta - r))") auto

declare paint_rows.simps [simp del]

text \<open>The pen of a filled cell: \<open>Screen::Pen(0, col4.x, col4.y)\<close>.\<close>

definition fill_pen :: "host \<Rightarrow> ImU32 \<Rightarrow> Pen" where
  "fill_pen h c =
     (case ColorConvertU32ToFloat4 h c of (c4x, c4y, c4z, c4w) \<Rightarrow>
        \<lparr> ch = CHR 0x00, fg = to_int8 c4x, bg = to_int8 c4y \<rparr>)"

definition drawTriangle ::
  "host \<Rightarrow> ImVec2 \<Rightarrow> ImVec2 \<Rightarrow> ImVec2 \<Rightarrow> ImU32 \<Rightarrow> draw_state \<Rightarrow> error + draw_state" where
  "drawTriangle h p0 p1 p2 c s =
     (let ymin = to_int32 (ffloor (fmin (fmin (snd p0) (snd p1)) (snd p2)));
          ymax = to_int32 (ffloor (fmax (fmax (snd p0) (snd p1)) (snd p2)));
          ydelta = add32 (sub32 ymax ymin) 1;
          x0 = ffloor (fst p0); x1 = ffloor (fst p1); x2 = ffloor (fst p2);
          y0 = ffloor (snd p0); y1 = ffloor (snd p1); y2 = ffloor (snd p2)
      in case reset_rows 0 ydelta (resize_xrange ydelta) of
           Inl e \<Rightarrow> Inl e
         | Inr g_xrange \<Rightarrow>
        (case ScanLine (to_int32 x0) (to_int32 (fsub y0 (f_of_int ymin)))
                (to_int32 x1) (to_int32 (fsub y1 (f_of_int ymin))) ydelta g_xrange of
           Inl e \<Rightarrow> Inl e
         | Inr xr1 \<Rightarrow>
        (case ScanLine (to_int32 x1) (to_int32 (fsub y1 (f_of_int ymin)))
                (to_int32 x2) (to_int32 (fsub y2 (f_of_int ymin))) ydelta xr1 of
           Inl e \<Rightarrow> Inl e
         | Inr xr2 \<Rightarrow>
        (case ScanLine (to_int32 x2) (to_int32 (fsub y2 (f_of_int ymin)))
                (to_int32 x0) (to_int32 (fsub y0 (f_of_int ymin))) ydelta xr2 of
           Inl e \<Rightarrow> Inl e
         | Inr xr3 \<Rightarrow> paint_rows h (fill_pen h c) ymin xr3 0 ydelta s))))"

text \<open>What the final loop of \<open>drawTriangle\<close> visits, before the test against the display.
  \<open>rows_of\<close> is the number of rows \<open>ydelta\<close> the function computes, \<open>triangle_xrange\<close> the
  interval table after the three edge walks, \<open>row_cells\<close> the cells of one row, \<open>span_cells\<close>
  those of the rows from \<open>r\<close> on and \<open>candidate_cells\<close> those of a triangle; none depends on
  the display.\<close>

definition rows_of :: "ImVec2 \<Rightarrow> ImVec2 \<Rightarrow> ImVec2 \<Rightarrow> int" where
  "rows_of p0 p1 p2 =
     add32 (sub32 (to_int32 (ffloor (fmax (fmax (snd p0) (snd p1)) (snd p2))))
                  (to_int32 (ffloor (fmin (fmin (snd p0) (snd p1)) (snd p2))))) 1"

definition triangle_xrange :: "ImVec2 \<Rightarrow> ImVec2 \<Rightarrow> ImVec2 \<Rightarrow> error + int list" where
  "triangle_xrange p0 p1 p2 =
     (let ymin = to_int32 (ffloor (fmin (fmin (snd p0) (snd p1)) (snd p2)));
          ydelta = rows_of p0 p1 p2;
          x0 = ffloor (fst p0); x1 = ffloor (fst p1); x2 = ffloor (fst p2);
          y0 = ffloor (snd p0); y1 = ffloor (snd p1); y2 = ffloor (snd p2)
      in case reset_rows 0 ydelta (resize_xrange ydelta) of
           Inl e \<Rightarrow> Inl e
         | Inr g_xrange \<Rightarrow>
        (case ScanLine (to_int32 x0) (to_int32 (fsub y0 (f_of_int ymin)))
                (to_int32 x1) (to_int32 (fsub y1 (f_of_int ymin))) ydelta g_xrange of
           Inl e \<Rightarrow> Inl e
         | Inr xr1 \<Rightarrow>
        (case ScanLine (to_int32 x1) (to_int32 (fsub y1 (f_of_int ymin)))
                (to_int32 x2) (to_int32 (fsub y2 (f_of_int ymin))) ydelta xr1 of
           Inl e \<Rightarrow> Inl e
         | Inr xr2 \<Rightarrow>
            ScanLine (to_int32 x2) (to_int32 (fsub y2 (f_of_int ymin)))
              (to_int32 x0) (to_int32 (fsub y0 (f_of_int ymin))) ydelta xr2)))"

fun row_cells :: "nat \<Rightarrow> int \<Rightarrow> int \<Rightarrow> (int \<times> int) list" where
  "row_cells 0 cx cy = []"
| "row_cells (Suc len) cx cy = (cx, cy) # row_cells len (add32 cx 1) cy"

function span_cells :: "int \<Rightarrow> int list \<Rightarrow> int \<Rightarrow> int \<Rightarrow> (int \<times> int) list" where
  "span_cells ymin xrange r ydelta =
     (if r < ydelta
      then (let hi = xrange ! nat (2 * r + 1); lo = xrange ! nat (2 * r)
            in if hi \<ge> lo then row_cells (loop_count (sub32 (add32 1 hi) lo)) lo (add32 r ymin)
               else [])
           @ span_cells ymin xrange (r + 1) ydelta
      else [])"
  by pat_completeness auto
termination
  by (relation "measure (\<lambda>(ymin, xrange, r, ydelta). nat (ydelta - r))") auto

declare span_cells.simps [simp del]

definition candidate_cells :: "ImVec2 \<Rightarrow> ImVec2 \<Rightarrow> ImVec2 \<Rightarrow> (int \<times> int) list" where
  "candidate_cells p0 p1 p2 =
     (case triangle_xrange p0 p1 p2 of
        Inl e \<Rightarrow> []
      | Inr xr3 \<Rightarrow>
          span_cells (to_int32 (ffloor (fmin (fmin (snd p0) (snd p1)) (snd p2)))) xr3 0
            (rows_of p0 p1 p2))"

text \<open>Fixtures for concrete evaluations: a host with a display of the given size whose text
  conversion leaves ASCII text as it is, and an empty display.\<close>

definition host_example :: "int \<Rightarrow> int \<Rightarrow> host" where
  "host_example w hgt =
     \<lparr> getWindowSize = (w, hgt), UTF2DF = (\<lambda>txt. txt),
       ColorConvertU32ToFloat4 = (\<lambda>c. (Fin 7, Fin 0, Fin 0, Fin 1)) \<rparr>"

definition blank_display :: draw_state where
  "blank_display = \<lparr> screen = (\<lambda>cell. \<lparr> ch = CHR '' '', fg = 7, bg = 0 \<rparr>), calls = [] \<rparr>"

section \<open>Draw-command interpreter\<close>

text \<open>The library's draw buffers, with the fields \<open>draw_frame\<close> reads. \<open>chrs\<close> is the
  character payload of a vertex, a NUL-terminated byte array. The element count and the
  index offset of a command and the entries of the index buffer are unsigned; they are
  held as natural numbers.\<close>

record ImDrawVert =
  pos :: ImVec2
  uv :: ImVec2
  col :: ImU32
  chrs :: string

record ImDrawCmd =
  ClipRect :: ImVec4
  ElemCount :: nat
  IdxOffset :: nat

record ImDrawList =
  CmdBuffer :: "ImDrawCmd list"
  IdxBuffer :: "nat list"
  VtxBuffer :: "ImDrawVert list"

record ImDrawData =
  DisplaySize :: ImVec2
  FramebufferScale :: ImVec2
  DisplayPos :: ImVec2
  CmdLists :: "ImDrawList list"

text \<open>\<open>cmd_list->VtxBuffer[cmd_list->IdxBuffer[pcmd->IdxOffset + j]]\<close>. The sum is an
  \<open>unsigned int\<close> and \<open>ImVector::operator[]\<close> takes an \<open>int\<close>, so the index is the sum
  wrapped into the range of \<open>int\<close>; the size of an \<open>ImVector\<close> is an \<open>int\<close> as well.\<close>

definition fetch :: "ImDrawList \<Rightarrow> ImDrawCmd \<Rightarrow> nat \<Rightarrow> error + ImDrawVert" where
  "fetch cl pcmd j =
     (case vec_get (IdxBuffer cl) (wrap32 (int (IdxOffset pcmd + j))) of
        Inl e \<Rightarrow> Inl e
      | Inr vidx \<Rightarrow> vec_get (VtxBuffer cl) (int vidx))"

text \<open>The test that sends a triangle to the glyph branch.\<close>

definition uv_differ :: "ImVec2 \<Rightarrow> ImVec2 \<Rightarrow> ImVec2 \<Rightarrow> bool" where
  "uv_differ uv0 uv1 uv2 =
     (fne (fst uv0) (fst uv1) \<or> fne (fst uv0) (fst uv2) \<or> fne (fst uv1) (fst uv2) \<or>
      fne (snd uv0) (snd uv1) \<or> fne (snd uv0) (snd uv2) \<or> fne (snd uv1) (snd uv2))"

text \<open>The position of a glyph: the mean of the six vertex positions, half a row lower,
  unless that is close to \<open>(lastCharX, lastCharY)\<close>. The sums are taken from the left, in
  single precision.\<close>

definition glyph_position ::
  "ImVec2 \<Rightarrow> ImVec2 \<Rightarrow> ImVec2 \<Rightarrow> ImVec2 \<Rightarrow> ImVec2 \<Rightarrow> ImVec2 \<Rightarrow> f32 \<Rightarrow> f32 \<Rightarrow> f32 \<times> f32" where
  "glyph_position pos0 pos1 pos2 ppos0 ppos1 ppos2 lastCharX lastCharY =
     (let gx = fdiv (fadd (fadd (fadd (fadd (fadd (fst pos0) (fst pos1)) (fst pos2))
                       (fst ppos0)) (fst ppos1)) (fst ppos2)) (Fin 6);
          gy = fadd (fdiv (fadd (fadd (fadd (fadd (fadd (snd pos0) (snd pos1)) (snd pos2))
                       (snd ppos0)) (snd ppos1)) (snd ppos2)) (Fin 6)) (Fin (1 / 2))
      in if flt (fabs (fsub gy lastCharY)) (Fin (1 / 2)) \<and>
            flt (fabs (fsub gx lastCharX)) (Fin (1 / 2))
         then (fadd lastCharX (Fin 1), lastCharY)
         else (gx, gy))"

text \<open>\<open>strlen\<close> of the payload and the string built from it.\<close>

definition c_string :: "string \<Rightarrow> string" where
  "c_string cs = takeWhile (\<lambda>c. c \<noteq> CHR 0x00) cs"

text \<open>The painting of one glyph at cell \<open>(xx, yy)\<close>, inside the clip rectangle.\<close>

definition paint_glyph :: "host \<Rightarrow> ImDrawVert \<Rightarrow> int \<Rightarrow> int \<Rightarrow> draw_state \<Rightarrow> draw_state" where
  "paint_glyph h v0 xx yy s =
     (let as_utf8 = c_string (chrs v0);
          (c4x, c4y, c4z, c4w) = ColorConvertU32ToFloat4 h (col v0);
          (current_bg, s1) = readTile xx yy s;
          as_df = UTF2DF h as_utf8
      in if length as_df = 1
         then paintTile h \<lparr> ch = as_df ! 0, fg = to_int8 c4x, bg = bg current_bg \<rparr> xx yy s1
         else paintTile h \<lparr> ch = CHR ''?'', fg = to_int8 c4x, bg = bg current_bg \<rparr> xx yy s1)"

text \<open>The state of the walk over one command: \<open>lastCharX\<close>, \<open>lastCharY\<close> and the display.\<close>

type_synonym walk_state = "f32 \<times> f32 \<times> draw_state"

text \<open>The glyph branch of the loop body, after the first three vertices were read.\<close>

definition glyph_branch ::
  "host \<Rightarrow> ImDrawList \<Rightarrow> ImDrawCmd \<Rightarrow> ImVec4 \<Rightarrow> nat \<Rightarrow> ImDrawVert \<Rightarrow> ImDrawVert \<Rightarrow> ImDrawVert
     \<Rightarrow> walk_state \<Rightarrow> error + walk_state" where
  "glyph_branch h cl pcmd clip_rect i v0 v1 v2 st =
     (case st of (lastCharX, lastCharY, s) \<Rightarrow>
      (case fetch cl pcmd (i + 3) of Inl e \<Rightarrow> Inl e | Inr w0 \<Rightarrow>
      (case fetch cl pcmd (i + 4) of Inl e \<Rightarrow> Inl e | Inr w1 \<Rightarrow>
      (case fetch cl pcmd (i + 5) of Inl e \<Rightarrow> Inl e | Inr w2 \<Rightarrow>
      (case clip_rect of (clip_x, clip_y, clip_z, clip_w) \<Rightarrow>
       (let (gx, gy) = glyph_position (pos v0) (pos v1) (pos v2) (pos w0) (pos w1) (pos w2)
                         lastCharX lastCharY;
            xx = to_int32 (ffloor gx);
            yy = to_int32 (ffloor gy)
        in if flt (f_of_int xx) clip_x \<or> fge (f_of_int xx) clip_z \<or>
              flt (f_of_int yy) clip_y \<or> fge (f_of_int yy) clip_w
           then Inr (gx, gy, s)
           else Inr (gx, gy, paint_glyph h v0 xx yy s)))))))"

text \<open>The fill branch: the call of \<open>drawTriangle\<close> is recorded, then carried out.\<close>

definition fill_branch ::
  "host \<Rightarrow> ImDrawVert \<Rightarrow> ImDrawVert \<Rightarrow> ImDrawVert \<Rightarrow> walk_state \<Rightarrow> error + walk_state" where
  "fill_branch h v0 v1 v2 st =
     (case st of (lastCharX, lastCharY, s) \<Rightarrow>
      (case drawTriangle h (pos v0) (pos v1) (pos v2) (col v0)
              (s\<lparr>calls := calls s @ [DrawTriangle (pos v0) (pos v1) (pos v2) (col v0)]\<rparr>) of
         Inl e \<Rightarrow> Inl e
       | Inr s' \<Rightarrow> Inr (lastCharX, lastCharY, s')))"

text \<open>The body of the loop over the indices of a command, at index \<open>i\<close>. The flag returned
  says whether the glyph branch ran, which advances \<open>i\<close> by three more.\<close>

definition tri_body ::
  "host \<Rightarrow> ImDrawList \<Rightarrow> ImDrawCmd \<Rightarrow> ImVec4 \<Rightarrow> nat \<Rightarrow> walk_state \<Rightarrow> error + (bool \<times> walk_state)" where
  "tri_body h cl pcmd clip_rect i st =
     (case fetch cl pcmd (i + 0) of Inl e \<Rightarrow> Inl e | Inr v0 \<Rightarrow>
     (case fetch cl pcmd (i + 1) of Inl e \<Rightarrow> Inl e | Inr v1 \<Rightarrow>
     (case fetch cl pcmd (i + 2) of Inl e \<Rightarrow> Inl e | Inr v2 \<Rightarrow>
        (if uv_differ (uv v0) (uv v1) (uv v2)
         then (case glyph_branch h cl pcmd clip_rect i v0 v1 v2 st of
                 Inl e \<Rightarrow> Inl e | Inr st' \<Rightarrow> Inr (True, st'))
         else (case fill_branch h v0 v1 v2 st of
                 Inl e \<Rightarrow> Inl e | Inr st' \<Rightarrow> Inr (False, st'))))))"

text \<open>\<open>for (unsigned int i = 0; i < pcmd->ElemCount; i += 3)\<close>. The walk goes on
  only after the body has read the entries from \<open>i\<close> on, at indices below \<open>2^31\<close>, so the
  counter does not reach \<open>2^32\<close> and its step is the plain sum.\<close>

function tri_walk ::
  "host \<Rightarrow> ImDrawList \<Rightarrow> ImDrawCmd \<Rightarrow> ImVec4 \<Rightarrow> nat \<Rightarrow> walk_state \<Rightarrow> error + walk_state" where
  "tri_walk h cl pcmd clip_rect i st =
     (if i < ElemCount pcmd
      then (case tri_body h cl pcmd clip_rect i st of
              Inl e \<Rightarrow> Inl e
            | Inr (glyph, st') \<Rightarrow>
                tri_walk h cl pcmd clip_rect (if glyph then i + 3 + 3 else i + 3) st')
      else Inr st)"
  by pat_completeness auto
termination
  by (relation "measure (\<lambda>(h, cl, pcmd, clip_rect, i, st). ElemCount pcmd - i)") auto

declare tri_walk.simps [simp del]

text \<open>One command: its clip rectangle in framebuffer space, the visibility test, the walk.\<close>

definition draw_cmd ::
  "host \<Rightarrow> ImDrawData \<Rightarrow> int \<Rightarrow> int \<Rightarrow> ImDrawList \<Rightarrow> ImDrawCmd \<Rightarrow> draw_state \<Rightarrow> error + draw_state" where
  "draw_cmd h drawData fb_width fb_height cl pcmd s =
     (case ClipRect pcmd of (cx, cy, cz, cw) \<Rightarrow>
      (let clip_off = DisplayPos drawData;
           clip_scale = FramebufferScale drawData;
           clip_x = fmul (fsub cx (fst clip_off)) (fst clip_scale);
           clip_y = fmul (fsub cy (snd clip_off)) (snd clip_scale);
           clip_z = fmul (fsub cz (fst clip_off)) (fst clip_scale);
           clip_w = fmul (fsub cw (snd clip_off)) (snd clip_scale)
       in if flt clip_x (f_of_int fb_width) \<and> flt clip_y (f_of_int fb_height) \<and>
             fge clip_z (Fin 0) \<and> fge clip_w (Fin 0)
          then (case tri_walk h cl pcmd (clip_x, clip_y, clip_z, clip_w) 0
                       (Fin (- 10000), Fin (- 10000), s) of
                  Inl e \<Rightarrow> Inl e
                | Inr (lastCharX, lastCharY, s') \<Rightarrow> Inr s')
          else Inr s))"

fun draw_cmds ::
  "host \<Rightarrow> ImDrawData \<Rightarrow> int \<Rightarrow> int \<Rightarrow> ImDrawList \<Rightarrow> ImDrawCmd list \<Rightarrow> draw_state \<Rightarrow> error + draw_state" where
  "draw_cmds h drawData fb_width fb_height cl [] s = Inr s"
| "draw_cmds h drawData fb_width fb_height cl (pcmd # rest) s =
     (case draw_cmd h drawData fb_width fb_height cl pcmd s of
        Inl e \<Rightarrow> Inl e
      | Inr s' \<Rightarrow> draw_cmds h drawData fb_width fb_height cl rest s')"

fun draw_lists ::
  "host \<Rightarrow> ImDrawData \<Rightarrow> int \<Rightarrow> int \<Rightarrow> ImDrawList list \<Rightarrow> draw_state \<Rightarrow> error + draw_state" where
  "draw_lists h drawData fb_width fb_height [] s = Inr s"
| "draw_lists h drawData fb_width fb_height (cl # rest) s =
     (case draw_cmds h drawData fb_width fb_height cl (CmdBuffer cl) s of
        Inl e \<Rightarrow> Inl e
      | Inr s' \<Rightarrow> draw_lists h drawData fb_width fb_height rest s')"

definition draw_frame :: "host \<Rightarrow> ImDrawData \<Rightarrow> draw_state \<Rightarrow> error + draw_state" where
  "draw_frame h drawData s =
     (let fb_width = to_int32 (fmul (fst (DisplaySize drawData)) (fst (FramebufferScale drawData)));
          fb_height = to_int32 (fmul (snd (DisplaySize drawData)) (snd (FramebufferScale drawData)))
      in if fb_width \<le> 0 \<or> fb_height \<le> 0 then Inr s
         else draw_lists h drawData fb_width fb_height (CmdLists drawData) s)"

text \<open>Helpers for stating what a walk does: whether a recorded call is a call of the fill
  rasterizer, the pen a glyph is painted with, the clip test of the glyph branch, the cell
  of a position, and the mean of the six vertex positions with the half-row bias (the
  first two bindings of \<open>glyph_position\<close>).\<close>

fun is_DrawTriangle :: "call \<Rightarrow> bool" where
  "is_DrawTriangle (DrawTriangle p0 p1 p2 c) = True"
| "is_DrawTriangle (ReadTile cx cy) = False"
| "is_DrawTriangle (PaintTile pen cx cy) = False"
| "is_DrawTriangle (PaintString pen cx cy txt) = False"

definition glyph_pen :: "host \<Rightarrow> ImDrawVert \<Rightarrow> Pen \<Rightarrow> Pen" where
  "glyph_pen h v0 current_bg =
     \<lparr> ch = (if length (UTF2DF h (c_string (chrs v0))) = 1
               then UTF2DF h (c_string (chrs v0)) ! 0 else CHR ''?''),
       fg = to_int8 (fst (ColorConvertU32ToFloat4 h (col v0))),
       bg = bg current_bg \<rparr>"

definition outside_clip :: "ImVec4 \<Rightarrow> int \<Rightarrow> int \<Rightarrow> bool" where
  "outside_clip clip_rect xx yy =
     (case clip_rect of (clip_x, clip_y, clip_z, clip_w) \<Rightarrow>
        flt (f_of_int xx) clip_x \<or> fge (f_of_int xx) clip_z \<or>
        flt (f_of_int yy) clip_y \<or> fge (f_of_int yy) clip_w)"

text \<open>The cell of a glyph position.\<close>

definition glyph_cell :: "f32 \<times> f32 \<Rightarrow> int \<times> int" where
  "glyph_cell p = (to_int32 (ffloor (fst p)), to_int32 (ffloor (snd p)))"

definition glyph_mean ::
  "ImVec2 \<Rightarrow> ImVec2 \<Rightarrow> ImVec2 \<Rightarrow> ImVec2 \<Rightarrow> ImVec2 \<Rightarrow> ImVec2 \<Rightarrow> f32 \<times> f32" where
  "glyph_mean pos0 pos1 pos2 ppos0 ppos1 ppos2 =
     (fdiv (fadd (fadd (fadd (fadd (fadd (fst pos0) (fst pos1)) (fst pos2))
              (fst ppos0)) (fst ppos1)) (fst ppos2)) (Fin 6),
      fadd (fdiv (fadd (fadd (fadd (fadd (fadd (snd pos0) (snd pos1)) (snd pos2))
              (snd ppos0)) (snd ppos1)) (snd ppos2)) (Fin 6)) (Fin (1 / 2)))"

text \<open>What the glyph branch does to the display for a glyph placed at position \<open>p\<close>: nothing
  when the cell of \<open>p\<close> is outside the clip rectangle, the painting of the cell otherwise.\<close>

definition place_glyph :: "host \<Rightarrow> ImVec4 \<Rightarrow> ImDrawVert \<Rightarrow> f32 \<times> f32 \<Rightarrow> draw_state \<Rightarrow> draw_state" where
  "place_glyph h clip_rect v0 p s =
     (if outside_clip clip_rect (fst (glyph_cell p)) (snd (glyph_cell p)) then s
      else paint_glyph h v0 (fst (glyph_cell p)) (snd (glyph_cell p)) s)"



text \<open>The test of the glyph branch that a position is close to the last one.\<close>

definition close_to :: "f32 \<times> f32 \<Rightarrow> f32 \<Rightarrow> f32 \<Rightarrow> bool" where
  "close_to p lastCharX lastCharY =
     (flt (fabs (fsub (snd p) lastCharY)) (Fin (1 / 2)) \<and>
      flt (fabs (fsub (fst p) lastCharX)) (Fin (1 / 2)))"

text \<open>Fixtures for concrete evaluations: draw data of one list with one command over the
  given vertices, indexed in order, on a 10 by 10 framebuffer.\<close>

definition vert :: "ImVec2 \<Rightarrow> ImVec2 \<Rightarrow> string \<Rightarrow> ImDrawVert" where
  "vert p t txt = \<lparr> pos = p, uv = t, col = 0, chrs = txt \<rparr>"

definition one_list :: "ImVec4 \<Rightarrow> ImDrawVert list \<Rightarrow> ImDrawList" where
  "one_list clip vs =
     \<lparr> CmdBuffer = [\<lparr> ClipRect = clip, ElemCount = length vs, IdxOffset = 0 \<rparr>],
       IdxBuffer = [0..<length vs], VtxBuffer = vs \<rparr>"

definition one_cmd :: "ImVec4 \<Rightarrow> ImDrawVert list \<Rightarrow> ImDrawData" where
  "one_cmd clip vs =
     \<lparr> DisplaySize = vec 10 10, FramebufferScale = vec 1 1, DisplayPos = vec 0 0,
       CmdLists = [one_list clip vs] \<rparr>"

text \<open>The calls a whole draw pass records.\<close>

definition frame_calls :: "host \<Rightarrow> ImDrawData \<Rightarrow> draw_state \<Rightarrow> error + call list" where
  "frame_calls h drawData s =
     (case draw_frame h drawData s of Inl e \<Rightarrow> Inl e | Inr s' \<Rightarrow> Inr (calls s'))"

text \<open>A solid-fill triangle (one shared texture coordinate) that lies outside the clip
  rectangle of its command and inside the display.\<close>

definition fill_outside_clip :: ImDrawData where
  "fill_outside_clip =
     one_cmd (Fin 0, Fin 0, Fin 2, Fin 2)
       [vert (vec 5 5) (vec 0 0) ''A'', vert (vec 7 5) (vec 0 0) ''A'',
        vert (vec 5 7) (vec 0 0) ''A'']"

text \<open>Two triangles whose six vertices share one texture coordinate, and two triangles with
  distinct texture coordinates.\<close>

definition shared_uv_pair :: ImDrawData where
  "shared_uv_pair =
     one_cmd (Fin 0, Fin 0, Fin 10, Fin 10)
       [vert (vec 0 0) (vec (1/2) (1/2)) ''A'', vert (vec 1 0) (vec (1/2) (1/2)) ''A'',
        vert (vec 1 1) (vec (1/2) (1/2)) ''A'', vert (vec 0 0) (vec (1/2) (1/2)) ''A'',
        vert (vec 1 1) (vec (1/2) (1/2)) ''A'', vert (vec 0 1) (vec (1/2) (1/2)) ''A'']"

definition distinct_uv_pair :: ImDrawData where
  "distinct_uv_pair =
     one_cmd (Fin 0, Fin 0, Fin 10, Fin 10)
       [vert (vec 0 0) (vec 0 0) ''A'', vert (vec 1 0) (vec 1 0) ''A'',
        vert (vec 1 1) (vec 1 1) ''A'', vert (vec 0 0) (vec 0 0) ''A'',
        vert (vec 1 1) (vec 1 1) ''A'', vert (vec 0 1) (vec 0 1) ''A'']"

text \<open>The two triangles of a glyph whose six positions have the mean \<open>(gx, gy)\<close>.\<close>

definition glyph_at :: "real \<Rightarrow> real \<Rightarrow> string \<Rightarrow> ImDrawVert list" where
  "glyph_at gx gy txt =
     [vert (vec (gx - 1/2) (gy - 1/2)) (vec 0 0) txt, vert (vec (gx + 1/2) (gy - 1/2)) (vec 1 0) txt,
      vert (vec (gx + 1/2) (gy + 1/2)) (vec 1 1) txt,
      vert (vec (gx - 1/2) (gy - 1/2)) (vec 0 0) txt, vert (vec (gx + 1/2) (gy + 1/2)) (vec 1 1) txt,
      vert (vec (gx - 1/2) (gy + 1/2)) (vec 0 1) txt]"



definition unmapped_glyph :: ImDrawData where
  "unmapped_glyph = one_cmd (Fin 0, Fin 0, Fin 10, Fin 10) (glyph_at 5 5 ''ab'')"

section \<open>Window ordering reconciler\<close>

text \<open>The two global window lists of the library's context; a window is identified by its
  pointer, of any type \<open>'w\<close>.\<close>

record 'w ImGuiContext =
  Windows :: "'w list"
  WindowsFocusOrder :: "'w list"

text \<open>The two loops that build one finished list: the global list without the members of
  the claimed set, then the claimed list, each element pushed at the back.\<close>

definition push_unclaimed :: "'w list \<Rightarrow> 'w set \<Rightarrow> 'w list \<Rightarrow> 'w list" where
  "push_unclaimed global claimed out =
     fold (\<lambda>win acc. if win \<in> claimed then acc else acc @ [win]) global out"

definition push_all :: "'w list \<Rightarrow> 'w list \<Rightarrow> 'w list" where
  "push_all order out = fold (\<lambda>win acc. acc @ [win]) order out"

definition imgui_rearrange_internals ::
  "'w list \<Rightarrow> 'w list \<Rightarrow> 'w ImGuiContext \<Rightarrow> 'w ImGuiContext" where
  "imgui_rearrange_internals display_order focus_order c =
     (let set_display_order = set display_order;
          set_focus_order = set focus_order;
          finished_display_order =
            push_all display_order (push_unclaimed (Windows c) set_display_order []);
          finished_focus_order =
            push_all focus_order (push_unclaimed (WindowsFocusOrder c) set_focus_order [])
      in c\<lparr> Windows := finished_display_order, WindowsFocusOrder := finished_focus_order \<rparr>)"

section \<open>Machine numbers: facts\<close>

lemma wrap32_id: "- 2147483648 \<le> v \<Longrightarrow> v < 2147483648 \<Longrightarrow> wrap32 v = v"
  by (simp add: wrap32_def)

lemma wrap32_lower: "- 2147483648 \<le> wrap32 v"
  by (simp add: wrap32_def)

lemma wrap32_upper: "wrap32 v < 2147483648"
proof -
  have "(v + 2147483648) mod 4294967296 < 4294967296"
    by (rule pos_mod_bound) simp
  then show ?thesis by (simp add: wrap32_def)
qed

lemma add32_wrap32: "add32 (wrap32 a) b = wrap32 (a + b)"
proof -
  have e1: "(a + 2147483648) mod 4294967296 - 2147483648 + b + 2147483648
              = (a + 2147483648) mod 4294967296 + b"
    by arith
  have e2: "a + 2147483648 + b = a + b + 2147483648"
    by arith
  have "((a + 2147483648) mod 4294967296 + b) mod 4294967296 = (a + 2147483648 + b) mod 4294967296"
    by (rule mod_add_left_eq)
  then show ?thesis
    by (simp only: add32_def wrap32_def e1 e2)
qed

text \<open>The two table indices of a row below \<open>2^30\<close> are computed without a wrap.\<close>

lemma row_index:
  assumes "0 \<le> r" and "r < ymax" and "ymax < 1073741824"
  shows "add32 (mul32 2 r) 0 = 2 * r" and "add32 (mul32 2 r) 1 = 2 * r + 1"
proof -
  have m: "mul32 2 r = 2 * r"
    unfolding mul32_def using assms by (intro wrap32_id) simp_all
  show "add32 (mul32 2 r) 0 = 2 * r"
    unfolding add32_def m using assms by (simp add: wrap32_id)
  show "add32 (mul32 2 r) 1 = 2 * r + 1"
    unfolding add32_def m using assms by (intro wrap32_id) simp_all
qed

text \<open>The rounding of some small numbers, all of them binary32 numbers.\<close>

lemmas f32_eval =
  round32_def round_mag_def ulp32_def pow2_def ilog2_def rne_def log2n.simps Let_def

lemma round32_nums:
  "round32 0 = Fin 0" "round32 1 = Fin 1" "round32 2 = Fin 2" "round32 3 = Fin 3"
  "round32 4 = Fin 4" "round32 5 = Fin 5" "round32 6 = Fin 6" "round32 7 = Fin 7"
  "round32 10 = Fin 10"
  by (simp_all add: f32_eval)

text \<open>The numbers used as coordinates in the evaluations below are binary32 numbers; a
  number that is not one is rounded to its neighbour, and past the largest to infinity.\<close>

lemma round32_fixtures:
  "round32 (1/2) = Fin (1/2)" "round32 (7/2) = Fin (7/2)" "round32 (9/2) = Fin (9/2)"
  "round32 (11/2) = Fin (11/2)" "round32 (13/4) = Fin (13/4)" "round32 (15/4) = Fin (15/4)"
  "round32 (17/4) = Fin (17/4)" "round32 (- 10000) = Fin (- 10000)"
  "round32 1200000000 = Fin 1200000000"
  "round32 (7/2 - 3 / 2 ^ 22) = Fin (7/2 - 3 / 2 ^ 22)"
  by (simp_all add: f32_eval)

lemma round32_inexact:
  "round32 (1/10) = Fin (13421773 / 134217728)" "round32 16777217 = Fin 16777216"
  "round32 (21 - 3 / 2 ^ 22) = Fin 21" "round32 (2 ^ 128) = PInf"
  by (simp_all add: f32_eval)

section \<open>Session state: activation and upward propagation\<close>

text \<open>
  Claim C9. Whatever context is current, \<open>activate\<close> makes the session's own context the
  current one, and a following \<open>deactivate\<close> makes current again exactly the context that
  was current before \<open>activate\<close>. The save is one level deep: after two activations, two
  deactivations leave the session's context current, not the original one.
\<close>

theorem activate_deactivate_restores:
  "snd (activate st cur) = ctx st
   \<and> (case activate st cur of (st1, cur1) \<Rightarrow> snd (deactivate st1 cur1) = cur)
   \<and> (case activate st cur of (st1, cur1) \<Rightarrow>
        case activate st1 cur1 of (st2, cur2) \<Rightarrow>
        case deactivate st2 cur2 of (st3, cur3) \<Rightarrow>
          snd (deactivate st3 cur3) = ctx st)"
  by (simp add: activate_def deactivate_def)

theorem activate_deactivate_restores_witness:
  "snd (activate (ui_state_init\<lparr>ctx := Some 1\<rparr>) (Some 7)) = Some 1
   \<and> snd (deactivate (fst (activate (ui_state_init\<lparr>ctx := Some 1\<rparr>) (Some 7)))
             (snd (activate (ui_state_init\<lparr>ctx := Some 1\<rparr>) (Some 7)))) = Some 7"
  using activate_deactivate_restores [of "ui_state_init\<lparr>ctx := Some 1\<rparr>" "Some 7"]
  by (simp add: ui_state_init_def activate_def deactivate_def)

text \<open>
  Claim C10. \<open>suppress_next_mouse_feed_upwards\<close> has the effect of
  \<open>suppress_next_keyboard_feed_upwards\<close>: it sets the keyboard suppression flag and changes
  no other member of the session. After either call the next \<open>on_feed_end\<close> returns false,
  also when \<open>feed_upwards\<close> asked for propagation before or after it, and that
  \<open>on_feed_end\<close> clears both flags.
\<close>

theorem mouse_suppress_sets_keyboard_flag:
  "suppress_next_mouse_feed_upwards st = suppress_next_keyboard_feed_upwards st
   \<and> suppress_next_mouse_feed_upwards st = st\<lparr>suppress_next_keyboard_passthrough := True\<rparr>
   \<and> fst (on_feed_end keys (suppress_next_mouse_feed_upwards st) cur) = False
   \<and> fst (on_feed_end keys (suppress_next_keyboard_feed_upwards st) cur) = False
   \<and> fst (on_feed_end keys (feed_upwards (suppress_next_mouse_feed_upwards st)) cur) = False
   \<and> fst (on_feed_end keys (suppress_next_mouse_feed_upwards (feed_upwards st)) cur) = False
   \<and> fst (on_feed_end keys (feed_upwards (suppress_next_keyboard_feed_upwards st)) cur) = False
   \<and> fst (on_feed_end keys (suppress_next_keyboard_feed_upwards (feed_upwards st)) cur) = False
   \<and> \<not> suppress_next_keyboard_passthrough (fst (snd (on_feed_end keys st cur)))
   \<and> \<not> should_pass_keyboard_up (fst (snd (on_feed_end keys st cur)))"
  by (simp add: suppress_next_mouse_feed_upwards_def suppress_next_keyboard_feed_upwards_def
      feed_upwards_def on_feed_end_def deactivate_def)

text \<open>Without the suppression the same delivery is passed up, so the flag is what decides.\<close>

theorem mouse_suppress_sets_keyboard_flag_witness:
  "fst (on_feed_end (Some {SELECT}) (feed_upwards ui_state_init) None) = True
   \<and> fst (on_feed_end (Some {SELECT})
            (feed_upwards (suppress_next_mouse_feed_upwards ui_state_init)) None) = False"
  using mouse_suppress_sets_keyboard_flag [of ui_state_init "Some {SELECT}" None]
  by (simp add: feed_upwards_def on_feed_end_def deactivate_def ui_state_init_def)

section \<open>Window ordering reconciler: the splice\<close>

lemma push_unclaimed_filter:
  "push_unclaimed global claimed out = out @ filter (\<lambda>w. w \<notin> claimed) global"
  unfolding push_unclaimed_def
  by (induction global arbitrary: out) auto

lemma push_all_append: "push_all order out = out @ order"
  unfolding push_all_def
  by (induction order arbitrary: out) auto

text \<open>
  Claim C5. For every global display-order list and every claimed list, the splice leaves
  the unclaimed windows in their prior relative order and puts the claimed windows after
  them, at the paint-nearest end, in the order in which they were handed in; the focus
  list is treated the same way. For the global order A, B, C, D and the claimed windows
  sorted to D, B the result is A, C, D, B.
\<close>

theorem splice_keeps_unclaimed_order:
  "Windows (imgui_rearrange_internals display_order focus_order c)
     = filter (\<lambda>w. w \<notin> set display_order) (Windows c) @ display_order
   \<and> WindowsFocusOrder (imgui_rearrange_internals display_order focus_order c)
     = filter (\<lambda>w. w \<notin> set focus_order) (WindowsFocusOrder c) @ focus_order
   \<and> Windows (imgui_rearrange_internals [CHR ''D'', CHR ''B''] fo
        \<lparr> Windows = [CHR ''A'', CHR ''B'', CHR ''C'', CHR ''D''], WindowsFocusOrder = g \<rparr>)
     = [CHR ''A'', CHR ''C'', CHR ''D'', CHR ''B'']"
  by (simp add: imgui_rearrange_internals_def push_unclaimed_filter push_all_append)

theorem splice_keeps_unclaimed_order_witness:
  "Windows (imgui_rearrange_internals [4, 2 :: nat] [2, 4]
        \<lparr> Windows = [1, 2, 3, 4], WindowsFocusOrder = [4, 3, 2, 1] \<rparr>) = [1, 3, 4, 2]
   \<and> WindowsFocusOrder (imgui_rearrange_internals [4, 2 :: nat] [2, 4]
        \<lparr> Windows = [1, 2, 3, 4], WindowsFocusOrder = [4, 3, 2, 1] \<rparr>) = [3, 1, 2, 4]"
  using splice_keeps_unclaimed_order [of "[4, 2 :: nat]" "[2, 4]"
          "\<lparr> Windows = [1, 2, 3, 4], WindowsFocusOrder = [4, 3, 2, 1] \<rparr>"]
  by simp

section \<open>Input translator: directional suppression\<close>

lemma erase_all_eq: "erase_all v keys = keys - set v"
  unfolding erase_all_def by (induction v arbitrary: keys) auto

lemma kill_danger_mem:
  "c \<in> kill_danger d keys \<longleftrightarrow>
     c \<in> keys \<and> (\<forall>(k, t) \<in> set d. t \<le> max_suppress_frames \<longrightarrow> c \<notin> set (to_kill_at k))"
  by (induction d keys rule: kill_danger.induct) (auto simp: erase_all_eq)

lemma to_kill_left: "CURSOR_LEFT \<in> set (to_kill_at k) \<longleftrightarrow> k = charToKey CHR ''4''"
  by (auto simp: to_kill_at_def to_kill_if_seen_def charToKey_def split: if_splits)

lemma to_kill_no_string: "STRING_A n \<notin> set (to_kill_at k)"
  by (auto simp: to_kill_at_def to_kill_if_seen_def charToKey_def split: if_splits)

lemma kill_seen_frame0:
  "kill_seen to_kill_if_seen {charToKey CHR ''4'', CURSOR_LEFT} d
     = ({charToKey CHR ''4''}, DAList.update (charToKey CHR ''4'') 0 d)"
  by (auto simp: to_kill_if_seen_def charToKey_def erase_all_eq)

lemma kill_seen_lone:
  "kill_seen to_kill_if_seen {CURSOR_LEFT} d = ({CURSOR_LEFT}, d)"
  by (simp add: to_kill_if_seen_def charToKey_def)

lemma cleanup_frame0:
  "cleanup_keys {charToKey CHR ''4'', CURSOR_LEFT} d
     = ({charToKey CHR ''4''}, DAList.update (charToKey CHR ''4'') 0 d)"
proof -
  have "kill_danger xs {charToKey CHR ''4''} = {charToKey CHR ''4''}" for xs
    by (auto simp: kill_danger_mem charToKey_def to_kill_no_string)
  then show ?thesis
    by (simp add: cleanup_keys_def kill_seen_frame0)
qed

lemma lookup_set: "(k, t) \<in> set (DAList.impl_of d) \<longleftrightarrow> DAList.lookup d k = Some t"
  by (simp add: DAList.lookup.rep_eq)

text \<open>A lone cursor event survives the cleanup pass exactly when the timer of the left-pad
  digit is absent or beyond the window.\<close>

lemma cleanup_lone:
  "cleanup_keys {CURSOR_LEFT} d
     = ((if (\<exists>t. DAList.lookup d (charToKey CHR ''4'') = Some t \<and> t \<le> max_suppress_frames)
         then {} else {CURSOR_LEFT}), d)"
proof -
  have "c \<in> kill_danger (DAList.impl_of d) {CURSOR_LEFT} \<longleftrightarrow>
        c = CURSOR_LEFT \<and>
        \<not> (\<exists>t. DAList.lookup d (charToKey CHR ''4'') = Some t \<and> t \<le> max_suppress_frames)" for c
    by (auto simp: kill_danger_mem to_kill_left lookup_set)
  then have "kill_danger (DAList.impl_of d) {CURSOR_LEFT} =
     (if (\<exists>t. DAList.lookup d (charToKey CHR ''4'') = Some t \<and> t \<le> max_suppress_frames)
         then {} else {CURSOR_LEFT})"
    by auto
  then show ?thesis
    by (simp add: cleanup_keys_def kill_seen_lone)
qed

lemma lookup_age:
  "DAList.lookup (age_timers d) k = map_option (\<lambda>t. add32 t 1) (DAList.lookup d k)"
proof -
  have "map_of (map (\<lambda>(k, t). (k, add32 t 1)) xs) k = map_option (\<lambda>t. add32 t 1) (map_of xs k)"
    for xs :: "(interface_key \<times> int) list"
    by (induction xs) auto
  then show ?thesis
    by (simp add: DAList.lookup.rep_eq age_timers.rep_eq)
qed

text \<open>At the start of frame \<open>n + 1\<close> the timer of the left-pad digit reads \<open>n + 1\<close>, wrapped
  into the range of \<open>int\<close>.\<close>

lemma timer_at_frame:
  assumes k0: "ks 0 = {charToKey CHR ''4'', CURSOR_LEFT}"
      and later: "\<forall>n\<ge>1. ks n = {CURSOR_LEFT}"
  shows "DAList.lookup (danger_key_frames (state_before ks st (Suc n))) (charToKey CHR ''4'')
           = Some (wrap32 (int (Suc n)))"
proof (induction n)
  case 0
  show ?case
    by (simp add: new_frame_def k0 cleanup_frame0 lookup_age add32_def)
next
  case (Suc n)
  have "ks (Suc n) = {CURSOR_LEFT}" using later by simp
  with Suc show ?case
    by (simp add: new_frame_def cleanup_lone lookup_age add32_wrap32)
qed

lemma lone_frame_keys:
  assumes k0: "ks 0 = {charToKey CHR ''4'', CURSOR_LEFT}"
      and later: "\<forall>n\<ge>1. ks n = {CURSOR_LEFT}"
  shows "KeysDown (frame_io ks st (Suc n))
           = (if wrap32 (int (Suc n)) \<le> max_suppress_frames then {} else {CURSOR_LEFT})"
proof -
  have "ks (Suc n) = {CURSOR_LEFT}" using later by simp
  then show ?thesis
    using timer_at_frame [OF k0 later, of st n]
    by (simp add: frame_io_def new_frame_def cleanup_lone del: state_before.simps)
qed

text \<open>
  Claim C1. Let the translator receive the left-pad digit together with \<open>CURSOR_LEFT\<close> on
  frame 0 and \<open>CURSOR_LEFT\<close> alone on every later frame, from any session state. Then the
  key set of frame 0 contains the digit and not \<open>CURSOR_LEFT\<close>, the timer of the digit is 0
  right after the cleanup pass of frame 0, \<open>CURSOR_LEFT\<close> is removed on each of the frames
  1 to 9, and it is kept on frame 11 and on every later frame before frame \<open>2^31\<close>, the
  frame on which the timer of the digit, an \<open>int\<close>, has left its range.
\<close>

theorem directional_suppression:
  assumes k0: "ks 0 = {charToKey CHR ''4'', CURSOR_LEFT}"
      and later: "\<forall>n\<ge>1. ks n = {CURSOR_LEFT}"
  shows "charToKey CHR ''4'' \<in> KeysDown (frame_io ks st 0)
       \<and> CURSOR_LEFT \<notin> KeysDown (frame_io ks st 0)
       \<and> DAList.lookup (snd (cleanup_keys (ks 0) (danger_key_frames st))) (charToKey CHR ''4'')
           = Some 0
       \<and> (\<forall>n\<in>{1..9}. CURSOR_LEFT \<notin> KeysDown (frame_io ks st n))
       \<and> (\<forall>n. 11 \<le> n \<and> n < 2147483648 \<longrightarrow> CURSOR_LEFT \<in> KeysDown (frame_io ks st n))"
proof -
  note io = lone_frame_keys [OF k0 later, of st]
  have f0: "KeysDown (frame_io ks st 0) = {charToKey CHR ''4''}"
    by (simp add: frame_io_def new_frame_def k0 cleanup_frame0)
  have a: "charToKey CHR ''4'' \<in> KeysDown (frame_io ks st 0)"
    and b: "CURSOR_LEFT \<notin> KeysDown (frame_io ks st 0)"
    by (simp_all add: f0 charToKey_def)
  have c: "DAList.lookup (snd (cleanup_keys (ks 0) (danger_key_frames st))) (charToKey CHR ''4'')
             = Some 0"
    by (simp add: k0 cleanup_frame0)
  have d: "\<forall>n\<in>{1..9}. CURSOR_LEFT \<notin> KeysDown (frame_io ks st n)"
  proof
    fix n :: nat assume "n \<in> {1..9}"
    then obtain m where n: "n = Suc m" and m: "m < 9" by (cases n) auto
    from m have "wrap32 (int (Suc m)) = int (Suc m)" by (intro wrap32_id) simp_all
    with n m show "CURSOR_LEFT \<notin> KeysDown (frame_io ks st n)"
      by (simp add: io max_suppress_frames_def)
  qed
  have e: "\<forall>n. 11 \<le> n \<and> n < 2147483648 \<longrightarrow> CURSOR_LEFT \<in> KeysDown (frame_io ks st n)"
  proof (intro allI impI)
    fix n :: nat assume "11 \<le> n \<and> n < 2147483648"
    then obtain m where n: "n = Suc m" and m: "10 \<le> m" "m < 2147483647" by (cases n) auto
    from m have "wrap32 (int (Suc m)) = int (Suc m)" by (intro wrap32_id) simp_all
    with n m show "CURSOR_LEFT \<in> KeysDown (frame_io ks st n)"
      by (simp add: io max_suppress_frames_def)
  qed
  from a b c d e show ?thesis by blast
qed

theorem directional_suppression_witness:
  "charToKey CHR ''4'' \<in> KeysDown (frame_io left_pad_press ui_state_init 0)
   \<and> CURSOR_LEFT \<notin> KeysDown (frame_io left_pad_press ui_state_init 0)
   \<and> CURSOR_LEFT \<notin> KeysDown (frame_io left_pad_press ui_state_init 9)
   \<and> CURSOR_LEFT \<in> KeysDown (frame_io left_pad_press ui_state_init 11)
   \<and> CURSOR_LEFT \<in> KeysDown (frame_io left_pad_press ui_state_init 2147483647)"
proof -
  have h0: "left_pad_press 0 = {charToKey CHR ''4'', CURSOR_LEFT}"
    by (simp add: left_pad_press_def)
  have h1: "\<forall>n\<ge>1. left_pad_press n = {CURSOR_LEFT}"
    by (simp add: left_pad_press_def)
  show ?thesis
    using directional_suppression [OF h0 h1, of ui_state_init] by auto
qed

text \<open>
  Claim C1 as stated fails: on frame \<open>2^31\<close> of that run the timer of the digit has been
  aged \<open>2^31\<close> times and reads \<open>-2^31\<close>, which is within the window, and the cursor event
  is removed again, on a frame later than frame 11.
\<close>

theorem suppression_returns_after_overflow:
  "left_pad_press 0 = {charToKey CHR ''4'', CURSOR_LEFT}
   \<and> left_pad_press 2147483648 = {CURSOR_LEFT}
   \<and> (11 :: nat) \<le> 2147483648
   \<and> DAList.lookup (danger_key_frames (state_before left_pad_press ui_state_init 2147483648))
        (charToKey CHR ''4'') = Some (- 2147483648)
   \<and> CURSOR_LEFT \<notin> KeysDown (frame_io left_pad_press ui_state_init 2147483648)"
proof -
  have h0: "left_pad_press 0 = {charToKey CHR ''4'', CURSOR_LEFT}"
    by (simp add: left_pad_press_def)
  have h1: "\<forall>n\<ge>1. left_pad_press n = {CURSOR_LEFT}"
    by (simp add: left_pad_press_def)
  have w: "wrap32 (int (Suc 2147483647)) = - 2147483648"
    by (simp add: wrap32_def)
  have t: "DAList.lookup (danger_key_frames (state_before left_pad_press ui_state_init
             (Suc 2147483647))) (charToKey CHR ''4'') = Some (- 2147483648)"
    using timer_at_frame [OF h0 h1, of ui_state_init 2147483647] by (simp only: w)
  have k: "CURSOR_LEFT \<notin> KeysDown (frame_io left_pad_press ui_state_init (Suc 2147483647))"
    using lone_frame_keys [OF h0 h1, of ui_state_init 2147483647]
    by (simp only: w) (simp add: max_suppress_frames_def)
  have s: "Suc 2147483647 = (2147483648 :: nat)" by simp
  from t k show ?thesis
    by (simp only: s) (simp add: left_pad_press_def)
qed

section \<open>Scan-convert rasterizer: bounds and the right triangle\<close>

text \<open>The macro \<open>ABS\<close> has no positive result for the least \<open>int\<close>.\<close>

lemma ABS_least: "ABS (- 2147483648) = - 2147483648"
  by (simp add: ABS_def neg32_def wrap32_def)

text \<open>The interval table has two entries per row. While the number of rows is below \<open>2^30\<close>,
  so that twice that number is an \<open>int\<close>, no loop reads or writes outside the table.\<close>

lemma scan_mark_ok:
  assumes "ymax \<le> 0 \<or> (ymax < 1073741824 \<and> int (length xr) = 2 * ymax)"
  shows "\<exists>xr'. scan_mark sx sy ymax xr = Inr xr' \<and> length xr' = length xr"
proof (cases "sy \<ge> 0 \<and> sy < ymax")
  case False
  then show ?thesis by (auto simp: scan_mark_def)
next
  case True
  then have b: "0 \<le> sy" "sy < ymax" "ymax < 1073741824" and l: "int (length xr) = 2 * ymax"
    using assms by auto
  note ix = row_index [OF b]
  show ?thesis
    using b l by (auto simp: scan_mark_def ix vec_get_def vec_set_def)
qed

lemma scan_loop_ok:
  assumes "ymax \<le> 0 \<or> (ymax < 1073741824 \<and> int (length xr) = 2 * ymax)"
  shows "\<exists>xr'. scan_loop cnt m n dx1 dy1 dx2 dy2 ymax sx sy k xr = Inr xr' \<and> length xr' = length xr"
  using assms
proof (induction cnt arbitrary: sx sy k xr)
  case 0
  then show ?case by simp
next
  case (Suc cnt)
  obtain xr1 where m: "scan_mark sx sy ymax xr = Inr xr1" and l: "length xr1 = length xr"
    using scan_mark_ok [OF Suc.prems] by blast
  have l1: "ymax \<le> 0 \<or> (ymax < 1073741824 \<and> int (length xr1) = 2 * ymax)"
    using l Suc.prems by simp
  show ?case
    using Suc.IH [OF l1] by (simp add: m l)
qed

lemma ScanLine_ok:
  assumes "ymax \<le> 0 \<or> (ymax < 1073741824 \<and> int (length xr) = 2 * ymax)"
  shows "\<exists>xr'. ScanLine x1 y1 x2 y2 ymax xr = Inr xr' \<and> length xr' = length xr"
  unfolding ScanLine_def Let_def
  by (simp only: split_def) (rule scan_loop_ok [OF assms])

lemma reset_rows_ok:
  assumes "ydelta \<le> 0 \<or> (ydelta < 1073741824 \<and> int (length xr) = 2 * ydelta)" and "0 \<le> r"
  shows "\<exists>xr'. reset_rows r ydelta xr = Inr xr' \<and> length xr' = length xr"
  using assms
proof (induction r ydelta xr rule: reset_rows.induct)
  case (1 r ydelta xrange)
  show ?case
  proof (cases "r < ydelta")
    case False
    then show ?thesis by (simp add: reset_rows.simps [of r])
  next
    case True
    then have b: "0 \<le> r" "r < ydelta" "ydelta < 1073741824"
      and l: "int (length xrange) = 2 * ydelta"
      using "1.prems" by auto
    note ix = row_index [OF b]
    define x1 where "x1 = xrange[nat (2 * r) := 999999]"
    define x2 where "x2 = x1[nat (2 * r + 1) := - 999999]"
    have s1: "vec_set xrange (add32 (mul32 2 r) 0) 999999 = Inr x1"
      using b l by (simp add: ix vec_set_def x1_def)
    have s2: "vec_set x1 (add32 (mul32 2 r) 1) (- 999999) = Inr x2"
      using b l by (simp add: ix vec_set_def x1_def x2_def)
    have l2: "length x2 = length xrange" by (simp add: x1_def x2_def)
    have "\<exists>xr'. reset_rows (r + 1) ydelta x2 = Inr xr' \<and> length xr' = length x2"
      using "1.prems" b by (intro "1.IH" [OF True s1 s2]) (simp_all add: l2)
    then show ?thesis
      using True by (simp add: reset_rows.simps [of r] s1 s2 l2)
  qed
qed

lemma resize_xrange_ok:
  assumes "ydelta < 1073741824" and "- 2147483648 \<le> ydelta"
  shows "ydelta \<le> 0 \<or> (ydelta < 1073741824 \<and> int (length (resize_xrange ydelta)) = 2 * ydelta)"
proof (cases "ydelta \<le> 0")
  case True
  then show ?thesis by simp
next
  case False
  then have "mul32 2 ydelta = 2 * ydelta"
    unfolding mul32_def using assms by (intro wrap32_id) simp_all
  then show ?thesis
    using False assms by (simp add: resize_xrange_def)
qed

lemma rows_of_lower: "- 2147483648 \<le> rows_of p0 p1 p2"
  by (simp add: rows_of_def add32_def wrap32_lower)

lemma triangle_xrange_ok:
  assumes "rows_of p0 p1 p2 < 1073741824"
  shows "\<exists>xr3. triangle_xrange p0 p1 p2 = Inr xr3
     \<and> (rows_of p0 p1 p2 \<le> 0 \<or>
         (rows_of p0 p1 p2 < 1073741824 \<and> int (length xr3) = 2 * rows_of p0 p1 p2))"
proof -
  define ymin where "ymin = to_int32 (ffloor (fmin (fmin (snd p0) (snd p1)) (snd p2)))"
  define ydelta where "ydelta = rows_of p0 p1 p2"
  define a0 where "a0 = to_int32 (ffloor (fst p0))"
  define a1 where "a1 = to_int32 (ffloor (fst p1))"
  define a2 where "a2 = to_int32 (ffloor (fst p2))"
  define b0 where "b0 = to_int32 (fsub (ffloor (snd p0)) (f_of_int ymin))"
  define b1 where "b1 = to_int32 (fsub (ffloor (snd p1)) (f_of_int ymin))"
  define b2 where "b2 = to_int32 (fsub (ffloor (snd p2)) (f_of_int ymin))"
  have i0: "ydelta \<le> 0 \<or> (ydelta < 1073741824 \<and> int (length (resize_xrange ydelta)) = 2 * ydelta)"
    using assms rows_of_lower [of p0 p1 p2] unfolding ydelta_def by (intro resize_xrange_ok)
  obtain g where g: "reset_rows 0 ydelta (resize_xrange ydelta) = Inr g"
    and lg: "length g = length (resize_xrange ydelta)"
    using reset_rows_ok [OF i0, of 0] by auto
  have ig: "ydelta \<le> 0 \<or> (ydelta < 1073741824 \<and> int (length g) = 2 * ydelta)"
    using i0 lg by simp
  obtain xr1 where x1: "ScanLine a0 b0 a1 b1 ydelta g = Inr xr1" and l1: "length xr1 = length g"
    using ScanLine_ok [OF ig] by blast
  have i1: "ydelta \<le> 0 \<or> (ydelta < 1073741824 \<and> int (length xr1) = 2 * ydelta)"
    using ig l1 by simp
  obtain xr2 where x2: "ScanLine a1 b1 a2 b2 ydelta xr1 = Inr xr2" and l2: "length xr2 = length xr1"
    using ScanLine_ok [OF i1] by blast
  have i2: "ydelta \<le> 0 \<or> (ydelta < 1073741824 \<and> int (length xr2) = 2 * ydelta)"
    using i1 l2 by simp
  obtain xr3 where x3: "ScanLine a2 b2 a0 b0 ydelta xr2 = Inr xr3" and l3: "length xr3 = length xr2"
    using ScanLine_ok [OF i2] by blast
  have i3: "ydelta \<le> 0 \<or> (ydelta < 1073741824 \<and> int (length xr3) = 2 * ydelta)"
    using i2 l3 by simp
  have "triangle_xrange p0 p1 p2 = Inr xr3"
    using g x1 x2 x3
    by (simp add: triangle_xrange_def Let_def ymin_def [symmetric] ydelta_def [symmetric]
        a0_def [symmetric] a1_def [symmetric] a2_def [symmetric]
        b0_def [symmetric] b1_def [symmetric] b2_def [symmetric])
  then show ?thesis using i3 unfolding ydelta_def by blast
qed

lemma drawTriangle_via_xrange:
  "drawTriangle h p0 p1 p2 c s =
     (case triangle_xrange p0 p1 p2 of
        Inl e \<Rightarrow> Inl e
      | Inr xr3 \<Rightarrow>
          paint_rows h (fill_pen h c) (to_int32 (ffloor (fmin (fmin (snd p0) (snd p1)) (snd p2))))
            xr3 0 (rows_of p0 p1 p2) s)"
  by (simp add: drawTriangle_def triangle_xrange_def rows_of_def Let_def split: sum.splits)

lemma paint_row_calls_eq:
  "calls (paint_row h pen len cx cy s) =
     calls s @ map (\<lambda>(px, py). PaintString pen px py '' '')
                 (filter (\<lambda>(px, py). in_display h px py) (row_cells len cx cy))"
proof (induction len arbitrary: cx s)
  case 0
  then show ?case by simp
next
  case (Suc len)
  show ?case
  proof (cases "in_display h cx cy")
    case True
    then have "paint_row h pen (Suc len) cx cy s
        = paint_row h pen len (add32 cx 1) cy (paintString h pen cx cy '' '' s)"
      by (simp add: in_display_def)
    then show ?thesis
      using True by (simp add: Suc.IH paintString_def)
  next
    case False
    then have "paint_row h pen (Suc len) cx cy s = paint_row h pen len (add32 cx 1) cy s"
      by (auto simp: in_display_def)
    then show ?thesis
      using False by (simp add: Suc.IH)
  qed
qed

lemma paint_rows_calls_eq:
  assumes "ydelta \<le> 0 \<or> (ydelta < 1073741824 \<and> int (length xr) = 2 * ydelta)" and "0 \<le> r"
  shows "\<exists>s'. paint_rows h pen ymin xr r ydelta s = Inr s'
       \<and> calls s' = calls s @ map (\<lambda>(px, py). PaintString pen px py '' '')
                          (filter (\<lambda>(px, py). in_display h px py) (span_cells ymin xr r ydelta))"
  using assms
proof (induction h pen ymin xr r ydelta s rule: paint_rows.induct)
  case (1 h pen ymin xrange r ydelta s)
  show ?case
  proof (cases "r < ydelta")
    case False
    then show ?thesis
      by (simp add: paint_rows.simps [of h pen ymin xrange r] span_cells.simps [of ymin xrange r])
  next
    case True
    then have b: "0 \<le> r" "r < ydelta" "ydelta < 1073741824"
      and l: "int (length xrange) = 2 * ydelta"
      using "1.prems" by auto
    note ix = row_index [OF b]
    define hi where "hi = xrange ! nat (2 * r + 1)"
    define lo where "lo = xrange ! nat (2 * r)"
    have g1: "vec_get xrange (add32 (mul32 2 r) 1) = Inr hi"
      and g0: "vec_get xrange (add32 (mul32 2 r) 0) = Inr lo"
      using b l by (auto simp: ix vec_get_def hi_def lo_def)
    let ?s1 = "if hi \<ge> lo
               then paint_row h pen (loop_count (sub32 (add32 1 hi) lo)) lo (add32 r ymin) s
               else s"
    let ?row = "if hi \<ge> lo then row_cells (loop_count (sub32 (add32 1 hi) lo)) lo (add32 r ymin)
                else []"
    have step: "paint_rows h pen ymin xrange r ydelta s
                  = paint_rows h pen ymin xrange (r + 1) ydelta ?s1"
      using True by (simp add: paint_rows.simps [of h pen ymin xrange r] g1 g0)
    have sp: "span_cells ymin xrange r ydelta = ?row @ span_cells ymin xrange (r + 1) ydelta"
      using True by (simp add: span_cells.simps [of ymin xrange r] hi_def lo_def Let_def)
    have c1: "calls ?s1 = calls s @ map (\<lambda>(px, py). PaintString pen px py '' '')
                          (filter (\<lambda>(px, py). in_display h px py) ?row)"
      by (simp add: paint_row_calls_eq)
    have ih: "\<exists>s'. paint_rows h pen ymin xrange (r + 1) ydelta ?s1 = Inr s'
       \<and> calls s' = calls ?s1 @ map (\<lambda>(px, py). PaintString pen px py '' '')
              (filter (\<lambda>(px, py). in_display h px py) (span_cells ymin xrange (r + 1) ydelta))"
    proof (cases "hi \<ge> lo")
      case True
      have r1: "0 \<le> r + 1" using b by simp
      show ?thesis
        using "1.IH"(1) [OF \<open>r < ydelta\<close> g1 g0 True g0 g1 g0 "1.prems"(1) r1] True by simp
    next
      case False
      have r1: "0 \<le> r + 1" using b by simp
      show ?thesis
        using "1.IH"(2) [OF \<open>r < ydelta\<close> g1 g0 False "1.prems"(1) r1] False by simp
    qed
    then obtain s' where s': "paint_rows h pen ymin xrange (r + 1) ydelta ?s1 = Inr s'"
      and n2: "calls s' = calls ?s1 @ map (\<lambda>(px, py). PaintString pen px py '' '')
              (filter (\<lambda>(px, py). in_display h px py) (span_cells ymin xrange (r + 1) ydelta))"
      by blast
    have "calls s' = calls s @ map (\<lambda>(px, py). PaintString pen px py '' '')
              (filter (\<lambda>(px, py). in_display h px py) (span_cells ymin xrange r ydelta))"
      unfolding n2 c1 sp by simp
    then show ?thesis using s' step by metis
  qed
qed

lemma drawTriangle_calls_eq:
  assumes "rows_of p0 p1 p2 < 1073741824"
  shows "\<exists>s'. drawTriangle h p0 p1 p2 c s = Inr s'
     \<and> calls s' = calls s @ map (\<lambda>(px, py). PaintString (fill_pen h c) px py '' '')
                        (filter (\<lambda>(px, py). in_display h px py) (candidate_cells p0 p1 p2))"
proof -
  define ymin where "ymin = to_int32 (ffloor (fmin (fmin (snd p0) (snd p1)) (snd p2)))"
  obtain xr3 where x: "triangle_xrange p0 p1 p2 = Inr xr3"
    and l: "rows_of p0 p1 p2 \<le> 0 \<or>
         (rows_of p0 p1 p2 < 1073741824 \<and> int (length xr3) = 2 * rows_of p0 p1 p2)"
    using triangle_xrange_ok [OF assms] by blast
  have dt: "drawTriangle h p0 p1 p2 c s
      = paint_rows h (fill_pen h c) ymin xr3 0 (rows_of p0 p1 p2) s"
    by (simp add: drawTriangle_via_xrange x ymin_def)
  have cc: "candidate_cells p0 p1 p2 = span_cells ymin xr3 0 (rows_of p0 p1 p2)"
    by (simp add: candidate_cells_def x ymin_def)
  show ?thesis
    unfolding dt cc by (rule paint_rows_calls_eq [OF l]) simp
qed

lemma cells_written_fill:
  "cells_written (map (\<lambda>(px, py). PaintString pen px py '' '') cs) = cs"
  by (induction cs) (auto simp: cells_written_def)

text \<open>A triangle of \<open>2^30\<close> rows or more: twice the number of rows is not an \<open>int\<close>, the
  table is not resized, and the first round of the reset loop leaves it.\<close>

lemma drawTriangle_tall:
  assumes "1073741824 \<le> rows_of p0 p1 p2"
  shows "drawTriangle h p0 p1 p2 c s = Inl OutOfRange"
proof -
  define ydelta where "ydelta = rows_of p0 p1 p2"
  have u: "ydelta < 2147483648"
    by (simp add: ydelta_def rows_of_def add32_def wrap32_upper)
  have "wrap32 (2 * ydelta) = 2 * ydelta - 4294967296"
  proof -
    have "(2 * ydelta + 2147483648 - 4294967296) mod 4294967296
            = 2 * ydelta + 2147483648 - 4294967296"
      using assms u unfolding ydelta_def [symmetric] by (intro mod_pos_pos_trivial) simp_all
    then have "(2 * ydelta + 2147483648) mod 4294967296 = 2 * ydelta + 2147483648 - 4294967296"
      by (simp only: minus_mod_self2)
    then show ?thesis by (simp add: wrap32_def)
  qed
  then have "mul32 2 ydelta < 0" using u by (simp add: mul32_def)
  then have e: "resize_xrange ydelta = []" by (simp add: resize_xrange_def)
  have "reset_rows 0 ydelta [] = Inl OutOfRange"
    using assms unfolding ydelta_def [symmetric]
    by (simp add: reset_rows.simps [of 0] vec_set_def add32_def mul32_def wrap32_def)
  then show ?thesis
    by (simp add: drawTriangle_def Let_def rows_of_def [symmetric] ydelta_def [symmetric] e)
qed

text \<open>The interval table of the right triangle with legs of length 4, for each rotation of
  its vertices.\<close>

lemmas raster_eval =
  triangle_xrange_def rows_of_def vec_def fmin_def fmax_def f_of_int_def fsub_def round32_nums
  add32_def sub32_def mul32_def neg32_def wrap32_def tdiv_def loop_count_def resize_xrange_def
  reset_rows.simps ScanLine_def scan_mark_def vec_get_def vec_set_def ABS_def Let_def
  eval_nat_numeral

lemma rows_a: "rows_of (vec 0 0) (vec 4 0) (vec 0 4) = 5"
  by (simp add: raster_eval)

lemma small_a: "rows_of (vec 0 0) (vec 4 0) (vec 0 4) < 1073741824"
  by (simp add: rows_a)

lemma xr_a: "triangle_xrange (vec 0 0) (vec 4 0) (vec 0 4) = Inr [0, 4, 0, 3, 0, 2, 0, 1, 0, 0]"
  by (simp add: raster_eval)

lemma xr_b: "triangle_xrange (vec 4 0) (vec 0 4) (vec 0 0) = Inr [0, 4, 0, 3, 0, 2, 0, 1, 0, 0]"
  by (simp add: raster_eval)

lemma xr_c: "triangle_xrange (vec 0 4) (vec 0 0) (vec 4 0) = Inr [0, 4, 0, 3, 0, 2, 0, 1, 0, 0]"
  by (simp add: raster_eval)

lemma cc_a: "candidate_cells (vec 0 0) (vec 4 0) (vec 0 4) =
  [(0, 0), (1, 0), (2, 0), (3, 0), (4, 0), (0, 1), (1, 1), (2, 1), (3, 1),
   (0, 2), (1, 2), (2, 2), (0, 3), (1, 3), (0, 4)]"
  by (simp add: candidate_cells_def xr_a rows_a)
     (simp add: vec_def fmin_def span_cells.simps add32_def sub32_def wrap32_def loop_count_def
        Let_def eval_nat_numeral)

lemma rows_tall: "rows_of (vec 0 0) (vec 0 1200000000) (vec 1 0) = 1200000001"
  by (simp add: rows_of_def vec_def fmin_def fmax_def add32_def sub32_def wrap32_def)

text \<open>
  Claim C8. For every display size and every triangle of fewer than \<open>2^30\<close> rows (the number
  \<open>ydelta\<close> the function computes from the vertices), \<open>drawTriangle\<close> ends without an
  access outside its interval table, and what it writes are exactly its candidate cells
  that lie inside the display, each tested on its own: a candidate with \<open>x < 0\<close>,
  \<open>x \<ge> width\<close>, \<open>y < 0\<close> or \<open>y \<ge> height\<close> is left out and the other cells of its row are
  still painted. No cell outside the display is written.
\<close>

theorem drawTriangle_clips_per_cell:
  assumes "rows_of p0 p1 p2 < 1073741824"
  shows "\<exists>s'. drawTriangle h p0 p1 p2 c s = Inr s'
     \<and> calls s' = calls s @ map (\<lambda>(px, py). PaintString (fill_pen h c) px py '' '')
                        (filter (\<lambda>(px, py). in_display h px py) (candidate_cells p0 p1 p2))
     \<and> (\<forall>cell \<in> set (cells_written (drop (length (calls s)) (calls s'))).
           in_display h (fst cell) (snd cell))"
proof -
  obtain s' where d: "drawTriangle h p0 p1 p2 c s = Inr s'"
    and c: "calls s' = calls s @ map (\<lambda>(px, py). PaintString (fill_pen h c) px py '' '')
                        (filter (\<lambda>(px, py). in_display h px py) (candidate_cells p0 p1 p2))"
    using drawTriangle_calls_eq [OF assms] by blast
  have "cells_written (drop (length (calls s)) (calls s'))
          = filter (\<lambda>(px, py). in_display h px py) (candidate_cells p0 p1 p2)"
    by (simp add: c cells_written_fill)
  then have "\<forall>cell \<in> set (cells_written (drop (length (calls s)) (calls s'))).
           in_display h (fst cell) (snd cell)"
    by auto
  with d c show ?thesis by blast
qed

text \<open>On a display of 3 by 3 cells the same triangle loses the cells of columns and rows 3
  and 4 one by one; the rest of each row is painted.\<close>

theorem drawTriangle_clips_per_cell_witness:
  "rows_of (vec 0 0) (vec 4 0) (vec 0 4) < 1073741824
   \<and> (case drawTriangle (host_example 3 3) (vec 0 0) (vec 4 0) (vec 0 4) 0 blank_display of
        Inl e \<Rightarrow> False
      | Inr s' \<Rightarrow> cells_written (calls s')
           = [(0, 0), (1, 0), (2, 0), (0, 1), (1, 1), (2, 1), (0, 2), (1, 2), (2, 2)])"
proof -
  obtain s' where d: "drawTriangle (host_example 3 3) (vec 0 0) (vec 4 0) (vec 0 4) 0 blank_display = Inr s'"
    and k: "calls s' = calls blank_display
              @ map (\<lambda>(px, py). PaintString (fill_pen (host_example 3 3) 0) px py '' '')
                  (filter (\<lambda>(px, py). in_display (host_example 3 3) px py)
                     (candidate_cells (vec 0 0) (vec 4 0) (vec 0 4)))"
    using drawTriangle_clips_per_cell [OF small_a, of "host_example 3 3" 0 blank_display]
    by blast
  have f: "filter (\<lambda>(px, py). in_display (host_example 3 3) px py)
             (candidate_cells (vec 0 0) (vec 4 0) (vec 0 4))
         = [(0, 0), (1, 0), (2, 0), (0, 1), (1, 1), (2, 1), (0, 2), (1, 2), (2, 2)]"
    by (simp add: cc_a in_display_def host_example_def)
  have "cells_written (calls s')
          = filter (\<lambda>(px, py). in_display (host_example 3 3) px py)
             (candidate_cells (vec 0 0) (vec 4 0) (vec 0 4))"
    unfolding k by (simp add: blank_display_def cells_written_fill)
  then show ?thesis
    using d f small_a by simp
qed

text \<open>
  Claim C8 as stated fails: the triangle (0,0), (0,1200000000), (1,0) has 1200000001 rows.
  Twice that number is not an \<open>int\<close>: the product is negative, the table keeps its size 0,
  and the reset loop writes outside it.
\<close>

theorem tall_triangle_leaves_table:
  "rows_of (vec 0 0) (vec 0 1200000000) (vec 1 0) = 1200000001
   \<and> mul32 2 1200000001 = - 1894967294
   \<and> resize_xrange 1200000001 = []
   \<and> drawTriangle (host_example 10 10) (vec 0 0) (vec 0 1200000000) (vec 1 0) 0 blank_display
       = Inl OutOfRange"
proof -
  have m: "mul32 2 1200000001 = - 1894967294"
    by (simp add: mul32_def wrap32_def)
  have r: "resize_xrange 1200000001 = []"
    by (simp add: resize_xrange_def m)
  have "drawTriangle (host_example 10 10) (vec 0 0) (vec 0 1200000000) (vec 1 0) 0 blank_display
          = Inl OutOfRange"
    by (rule drawTriangle_tall) (simp add: rows_tall)
  with m r rows_tall show ?thesis by simp
qed

lemma tri_cells_set:
  "set [(0, 0), (1, 0), (2, 0), (3, 0), (4, 0), (0, 1), (1, 1), (2, 1), (3, 1),
        (0, 2), (1, 2), (2, 2), (0, 3), (1, 3), (0, 4)]
     = {(cx :: int, cy :: int). 0 \<le> cx \<and> 0 \<le> cy \<and> cx + cy \<le> 4}"
  (is "set ?L = ?S")
proof (rule set_eqI)
  fix p :: "int \<times> int"
  obtain cx cy where p: "p = (cx, cy)" by (cases p)
  have small: "v = 0 \<or> v = 1 \<or> v = 2 \<or> v = 3 \<or> v = 4" if "0 \<le> v" "v \<le> 4" for v :: int
    using that by arith
  show "p \<in> set ?L \<longleftrightarrow> p \<in> ?S"
  proof
    assume "p \<in> set ?L"
    then show "p \<in> ?S" unfolding p by (simp, elim disjE) simp_all
  next
    assume "p \<in> ?S"
    then have c: "0 \<le> cx" "0 \<le> cy" "cx + cy \<le> 4" unfolding p by simp_all
    then have "cx \<le> 4" by arith
    from small [OF c(1) this] show "p \<in> set ?L"
    proof (elim disjE)
      assume "cx = 0" then show ?thesis using c small [of cy] unfolding p by auto
    next
      assume "cx = 1" then show ?thesis using c small [of cy] unfolding p by auto
    next
      assume "cx = 2" then show ?thesis using c small [of cy] unfolding p by auto
    next
      assume "cx = 3" then show ?thesis using c small [of cy] unfolding p by auto
    next
      assume "cx = 4" then show ?thesis using c small [of cy] unfolding p by auto
    qed
  qed
qed

lemma rot_b: "drawTriangle h (vec 4 0) (vec 0 4) (vec 0 0) c s = drawTriangle h (vec 0 0) (vec 4 0) (vec 0 4) c s"
  by (simp add: drawTriangle_via_xrange xr_a xr_b rows_a raster_eval)

lemma rot_c: "drawTriangle h (vec 0 4) (vec 0 0) (vec 4 0) c s = drawTriangle h (vec 0 0) (vec 4 0) (vec 0 4) c s"
  by (simp add: drawTriangle_via_xrange xr_a xr_c rows_a raster_eval)

text \<open>
  Claim C4. On any display a call of \<open>drawTriangle\<close> with either rotation of the vertices
  (0,0), (4,0), (0,4) has the same result as the call with the vertices in the given order,
  and the cells painted are those cells with \<open>x + y \<le> 4\<close>, \<open>x \<ge> 0\<close>, \<open>y \<ge> 0\<close> that the
  display holds. On a display that holds the triangle, that is with at least 5 columns and
  5 rows, these are exactly the 15 cells with \<open>x + y \<le> 4\<close>, \<open>x \<ge> 0\<close>, \<open>y \<ge> 0\<close>, each
  painted once.
\<close>

theorem fill_right_triangle:
  "drawTriangle h (vec 4 0) (vec 0 4) (vec 0 0) c s = drawTriangle h (vec 0 0) (vec 4 0) (vec 0 4) c s
   \<and> drawTriangle h (vec 0 4) (vec 0 0) (vec 4 0) c s = drawTriangle h (vec 0 0) (vec 4 0) (vec 0 4) c s
   \<and> (\<exists>s'. drawTriangle h (vec 0 0) (vec 4 0) (vec 0 4) c s = Inr s'
         \<and> set (cells_written (drop (length (calls s)) (calls s')))
             = {(cx, cy). 0 \<le> cx \<and> 0 \<le> cy \<and> cx + cy \<le> 4 \<and> in_display h cx cy})
   \<and> (5 \<le> fst (getWindowSize h) \<and> 5 \<le> snd (getWindowSize h) \<longrightarrow>
        (\<exists>s'. drawTriangle h (vec 0 0) (vec 4 0) (vec 0 4) c s = Inr s'
           \<and> set (cells_written (drop (length (calls s)) (calls s')))
               = {(cx, cy). 0 \<le> cx \<and> 0 \<le> cy \<and> cx + cy \<le> 4}
           \<and> length (cells_written (drop (length (calls s)) (calls s'))) = 15))"
proof -
  have main: "\<exists>s'. drawTriangle h (vec 0 0) (vec 4 0) (vec 0 4) c s = Inr s'
           \<and> set (cells_written (drop (length (calls s)) (calls s')))
               = {(cx, cy). 0 \<le> cx \<and> 0 \<le> cy \<and> cx + cy \<le> 4}
           \<and> length (cells_written (drop (length (calls s)) (calls s'))) = 15"
    if w: "5 \<le> fst (getWindowSize h)" and t: "5 \<le> snd (getWindowSize h)"
  proof -
    obtain s' where d: "drawTriangle h (vec 0 0) (vec 4 0) (vec 0 4) c s = Inr s'"
      and k: "calls s' = calls s @ map (\<lambda>(px, py). PaintString (fill_pen h c) px py '' '')
                (filter (\<lambda>(px, py). in_display h px py) (candidate_cells (vec 0 0) (vec 4 0) (vec 0 4)))"
      using drawTriangle_calls_eq [OF small_a] by blast
    have f: "filter (\<lambda>(px, py). in_display h px py) (candidate_cells (vec 0 0) (vec 4 0) (vec 0 4))
           = [(0, 0), (1, 0), (2, 0), (3, 0), (4, 0), (0, 1), (1, 1), (2, 1), (3, 1),
              (0, 2), (1, 2), (2, 2), (0, 3), (1, 3), (0, 4)]"
      using w t by (simp add: cc_a in_display_def)
    have "cells_written (drop (length (calls s)) (calls s'))
           = filter (\<lambda>(px, py). in_display h px py) (candidate_cells (vec 0 0) (vec 4 0) (vec 0 4))"
      by (simp add: k cells_written_fill)
    then have cw: "cells_written (drop (length (calls s)) (calls s'))
           = [(0, 0), (1, 0), (2, 0), (3, 0), (4, 0), (0, 1), (1, 1), (2, 1), (3, 1),
              (0, 2), (1, 2), (2, 2), (0, 3), (1, 3), (0, 4)]"
      using f by simp
    have a: "set (cells_written (drop (length (calls s)) (calls s')))
               = {(cx, cy). 0 \<le> cx \<and> 0 \<le> cy \<and> cx + cy \<le> 4}"
      unfolding cw by (rule tri_cells_set)
    have b: "length (cells_written (drop (length (calls s)) (calls s'))) = 15"
      unfolding cw by simp
    from d a b show ?thesis by blast
  qed
  have any: "\<exists>s'. drawTriangle h (vec 0 0) (vec 4 0) (vec 0 4) c s = Inr s'
         \<and> set (cells_written (drop (length (calls s)) (calls s')))
             = {(cx, cy). 0 \<le> cx \<and> 0 \<le> cy \<and> cx + cy \<le> 4 \<and> in_display h cx cy}"
  proof -
    obtain s' where d: "drawTriangle h (vec 0 0) (vec 4 0) (vec 0 4) c s = Inr s'"
      and k: "calls s' = calls s @ map (\<lambda>(px, py). PaintString (fill_pen h c) px py '' '')
                (filter (\<lambda>(px, py). in_display h px py) (candidate_cells (vec 0 0) (vec 4 0) (vec 0 4)))"
      using drawTriangle_calls_eq [OF small_a] by blast
    have "cells_written (drop (length (calls s)) (calls s'))
           = filter (\<lambda>(px, py). in_display h px py) (candidate_cells (vec 0 0) (vec 4 0) (vec 0 4))"
      by (simp add: k cells_written_fill)
    then have "set (cells_written (drop (length (calls s)) (calls s')))
           = {p \<in> set (candidate_cells (vec 0 0) (vec 4 0) (vec 0 4)). case p of (px, py) \<Rightarrow> in_display h px py}"
      by simp
    also have "\<dots> = {(cx, cy). 0 \<le> cx \<and> 0 \<le> cy \<and> cx + cy \<le> 4 \<and> in_display h cx cy}"
      unfolding cc_a tri_cells_set by auto
    finally show ?thesis using d by blast
  qed
  show ?thesis using rot_b rot_c any main by blast
qed

theorem fill_right_triangle_witness:
  "(5::int) \<le> fst (getWindowSize (host_example 80 25))
   \<and> (5::int) \<le> snd (getWindowSize (host_example 80 25))
   \<and> (case drawTriangle (host_example 80 25) (vec 0 0) (vec 4 0) (vec 0 4) 0 blank_display of
        Inl e \<Rightarrow> False
      | Inr s' \<Rightarrow> set (cells_written (calls s')) = {(cx, cy). 0 \<le> cx \<and> 0 \<le> cy \<and> cx + cy \<le> 4}
                  \<and> length (cells_written (calls s')) = 15)"
proof -
  have big: "(5::int) \<le> fst (getWindowSize (host_example 80 25))
      \<and> (5::int) \<le> snd (getWindowSize (host_example 80 25))"
    by (simp add: host_example_def)
  have e: "length (calls blank_display) = 0"
    by (simp add: blank_display_def)
  note t = fill_right_triangle [of "host_example 80 25" 0 blank_display]
  note t3 = t [THEN conjunct2, THEN conjunct2, THEN conjunct2, THEN mp, OF big]
  then obtain s' where d: "drawTriangle (host_example 80 25) (vec 0 0) (vec 4 0) (vec 0 4) 0 blank_display = Inr s'"
    and a: "set (cells_written (drop (length (calls blank_display)) (calls s')))
           = {(cx, cy). 0 \<le> cx \<and> 0 \<le> cy \<and> cx + cy \<le> 4}"
    and b: "length (cells_written (drop (length (calls blank_display)) (calls s'))) = 15"
    by (elim exE conjE)
  have e': "drop (length (calls blank_display)) (calls s') = calls s'"
    by (simp add: e)
  show ?thesis
    using big a b unfolding e' d by (simp only: sum.case simp_thms)
qed

section \<open>Draw-command interpreter: classification, placement and painting\<close>

lemmas walk_eval = frame_calls_def draw_frame_def draw_cmd_def tri_walk.simps tri_body_def fetch_def wrap32_def
  vec_get_def vec_set_def uv_differ_def fill_branch_def glyph_branch_def glyph_position_def
  paint_glyph_def readTile_def paintTile_def paintString_def writeCell_def c_string_def
  one_cmd_def one_list_def vert_def glyph_at_def host_example_def blank_display_def
  in_display_def vec_def fne_def fge_def fsub_def f_of_int_def to_int8_def round32_nums Let_def

lemmas fill_eval = drawTriangle_def fmin_def fmax_def resize_xrange_def reset_rows.simps
  paint_rows.simps ScanLine_def scan_mark_def ABS_def fill_pen_def
  add32_def sub32_def mul32_def neg32_def wrap32_def tdiv_def loop_count_def eval_nat_numeral

text \<open>
  Claim C3. The fill branch hands the triangle to \<open>drawTriangle\<close> without the clip
  rectangle (the source marks this "todo: pass in clip rect"), so a solid-fill triangle is
  clipped to the display only. On a 10 by 10 display the triangle (5,5), (7,5), (5,7) of a
  command whose clip rectangle is (0,0)-(2,2) lies entirely outside that rectangle, and all
  six of its cells are written.
\<close>

theorem fill_ignores_clip_rect:
  "ClipRect (hd (CmdBuffer (hd (CmdLists fill_outside_clip)))) = (Fin 0, Fin 0, Fin 2, Fin 2)
   \<and> frame_calls (host_example 10 10) fill_outside_clip blank_display =
     Inr [DrawTriangle (vec 5 5) (vec 7 5) (vec 5 7) 0,
          PaintString \<lparr>ch = CHR 0x00, fg = 7, bg = 0\<rparr> 5 5 '' '',
          PaintString \<lparr>ch = CHR 0x00, fg = 7, bg = 0\<rparr> 6 5 '' '',
          PaintString \<lparr>ch = CHR 0x00, fg = 7, bg = 0\<rparr> 7 5 '' '',
          PaintString \<lparr>ch = CHR 0x00, fg = 7, bg = 0\<rparr> 5 6 '' '',
          PaintString \<lparr>ch = CHR 0x00, fg = 7, bg = 0\<rparr> 6 6 '' '',
          PaintString \<lparr>ch = CHR 0x00, fg = 7, bg = 0\<rparr> 5 7 '' '']"
  by (simp add: fill_outside_clip_def walk_eval fill_eval)

lemma shared_uv_eval:
  "frame_calls (host_example 10 10) shared_uv_pair blank_display =
     Inr [DrawTriangle (vec 0 0) (vec 1 0) (vec 1 1) 0,
          PaintString \<lparr>ch = CHR 0x00, fg = 7, bg = 0\<rparr> 0 0 '' '',
          PaintString \<lparr>ch = CHR 0x00, fg = 7, bg = 0\<rparr> 1 0 '' '',
          PaintString \<lparr>ch = CHR 0x00, fg = 7, bg = 0\<rparr> 1 1 '' '',
          DrawTriangle (vec 0 0) (vec 1 1) (vec 0 1) 0,
          PaintString \<lparr>ch = CHR 0x00, fg = 7, bg = 0\<rparr> 0 0 '' '',
          PaintString \<lparr>ch = CHR 0x00, fg = 7, bg = 0\<rparr> 0 1 '' '',
          PaintString \<lparr>ch = CHR 0x00, fg = 7, bg = 0\<rparr> 1 1 '' '']"
  by (simp add: shared_uv_pair_def walk_eval fill_eval)

lemma distinct_uv_eval:
  "frame_calls (host_example 10 10) distinct_uv_pair blank_display =
     Inr [ReadTile 0 1, PaintTile \<lparr>ch = CHR ''A'', fg = 7, bg = 0\<rparr> 0 1]"
  by (simp add: distinct_uv_pair_def walk_eval f32_eval)


text \<open>The steps of the walk.\<close>

lemma error_is_OutOfRange: "(e :: error) = OutOfRange"
  by (cases e) simp

lemma tri_walk_step:
  assumes "i < ElemCount pcmd"
  shows "tri_walk h cl pcmd clip_rect i st =
           (case tri_body h cl pcmd clip_rect i st of
              Inl e \<Rightarrow> Inl e
            | Inr (glyph, st') \<Rightarrow> tri_walk h cl pcmd clip_rect (if glyph then i + 6 else i + 3) st')"
proof -
  have e: "i + 3 + 3 = i + 6" by simp
  show ?thesis
    using assms unfolding tri_walk.simps [of h cl pcmd clip_rect i] e by simp
qed


lemma paint_glyph_calls:
  "calls (paint_glyph h v0 xx yy s)
     = calls s @ [ReadTile xx yy, PaintTile (glyph_pen h v0 (screen s (xx, yy))) xx yy]"
  by (simp add: paint_glyph_def glyph_pen_def readTile_def paintTile_def Let_def split_def)

lemma paint_glyph_screen:
  "screen (paint_glyph h v0 xx yy s)
     = writeCell h (glyph_pen h v0 (screen s (xx, yy))) xx yy (screen s)"
  by (simp add: paint_glyph_def glyph_pen_def readTile_def paintTile_def Let_def split_def)

lemma place_glyph_no_fill:
  "\<forall>k \<in> set (drop (length (calls s)) (calls (place_glyph h clip_rect v0 p s))). \<not> is_DrawTriangle k"
  by (simp add: place_glyph_def paint_glyph_calls)

lemma glyph_branch_eq:
  assumes "fetch cl pcmd (i + 3) = Inr w0" "fetch cl pcmd (i + 4) = Inr w1"
    "fetch cl pcmd (i + 5) = Inr w2"
    and "glyph_position (pos v0) (pos v1) (pos v2) (pos w0) (pos w1) (pos w2) lx ly = (gx, gy)"
  shows "glyph_branch h cl pcmd clip_rect i v0 v1 v2 (lx, ly, s) =
           Inr (gx, gy, place_glyph h clip_rect v0 (gx, gy) s)"
  using assms
  by (cases clip_rect)
     (simp add: glyph_branch_def outside_clip_def place_glyph_def glyph_cell_def Let_def)

lemma glyph_branch_error:
  assumes "fetch cl pcmd (i + 3) = Inl e \<or> fetch cl pcmd (i + 4) = Inl e
             \<or> fetch cl pcmd (i + 5) = Inl e"
  shows "glyph_branch h cl pcmd clip_rect i v0 v1 v2 (lx, ly, s) = Inl OutOfRange"
proof -
  have "\<exists>e'. glyph_branch h cl pcmd clip_rect i v0 v1 v2 (lx, ly, s) = Inl e'"
    using assms by (auto simp: glyph_branch_def split: sum.splits)
  then obtain e' where "glyph_branch h cl pcmd clip_rect i v0 v1 v2 (lx, ly, s) = Inl e'"
    by blast
  then show ?thesis by (simp add: error_is_OutOfRange [of e'])
qed

lemma tri_body_glyph:
  assumes "fetch cl pcmd i = Inr v0" "fetch cl pcmd (i + 1) = Inr v1" "fetch cl pcmd (i + 2) = Inr v2"
    and "uv_differ (uv v0) (uv v1) (uv v2)"
  shows "tri_body h cl pcmd clip_rect i st =
           (case glyph_branch h cl pcmd clip_rect i v0 v1 v2 st of
              Inl e \<Rightarrow> Inl e | Inr st' \<Rightarrow> Inr (True, st'))"
  using assms by (simp add: tri_body_def)

lemma tri_body_fill:
  assumes "fetch cl pcmd i = Inr v0" "fetch cl pcmd (i + 1) = Inr v1" "fetch cl pcmd (i + 2) = Inr v2"
    and "\<not> uv_differ (uv v0) (uv v1) (uv v2)"
  shows "tri_body h cl pcmd clip_rect i st =
           (case fill_branch h v0 v1 v2 st of
              Inl e \<Rightarrow> Inl e | Inr st' \<Rightarrow> Inr (False, st'))"
  using assms by (simp add: tri_body_def)

text \<open>The glyph primitive at index \<open>i\<close>, met with the last position \<open>(lx, ly)\<close>.\<close>

lemma tri_body_glyph_step:
  assumes "fetch cl pcmd i = Inr v0" "fetch cl pcmd (i + 1) = Inr v1" "fetch cl pcmd (i + 2) = Inr v2"
    and "fetch cl pcmd (i + 3) = Inr w0" "fetch cl pcmd (i + 4) = Inr w1"
    and "fetch cl pcmd (i + 5) = Inr w2"
    and "uv_differ (uv v0) (uv v1) (uv v2)"
    and "glyph_position (pos v0) (pos v1) (pos v2) (pos w0) (pos w1) (pos w2) lx ly = (gx, gy)"
  shows "tri_body h cl pcmd clip_rect i (lx, ly, s) =
           Inr (True, gx, gy, place_glyph h clip_rect v0 (gx, gy) s)"
  unfolding tri_body_glyph [OF assms(1-3) assms(7)] glyph_branch_eq [OF assms(4-6) assms(8)]
  by simp

text \<open>The comparisons of the test: a coordinate differs from another when the two values
  are different or when it is not a number.\<close>

lemma fne_iff: "fne a b \<longleftrightarrow> a \<noteq> b \<or> a = NaN"
  by (cases a; cases b) (simp_all add: fne_def)

lemma uv_differ_iff:
  "uv_differ t0 t1 t2 \<longleftrightarrow> \<not> (t0 = t1 \<and> t0 = t2) \<or> fst t0 = NaN \<or> snd t0 = NaN"
  by (cases t0; cases t1; cases t2) (auto simp: uv_differ_def fne_iff)

text \<open>
  Claim C2, as the code has it. A triangle whose three texture coordinates are equal (and
  numbers) is a solid fill: the walk passes it to \<open>drawTriangle\<close> and goes on with the next
  triangle, three indices further. A triangle whose texture coordinates are not all equal
  is a glyph primitive: the walk pairs it with the next three indices, places the glyph
  without any call of \<open>drawTriangle\<close>, and goes on six indices further; when one of the
  three partner indices cannot be read, the walk fails.
\<close>

theorem uv_classification:
  assumes "i < ElemCount pcmd"
    and "fetch cl pcmd i = Inr v0" "fetch cl pcmd (i + 1) = Inr v1" "fetch cl pcmd (i + 2) = Inr v2"
  shows "(uv_differ (uv v0) (uv v1) (uv v2) \<longleftrightarrow>
            \<not> (uv v0 = uv v1 \<and> uv v0 = uv v2) \<or> fst (uv v0) = NaN \<or> snd (uv v0) = NaN)
       \<and> (\<not> uv_differ (uv v0) (uv v1) (uv v2) \<longrightarrow>
            tri_walk h cl pcmd clip_rect i (lx, ly, s) =
              (case drawTriangle h (pos v0) (pos v1) (pos v2) (col v0)
                      (s\<lparr>calls := calls s @ [DrawTriangle (pos v0) (pos v1) (pos v2) (col v0)]\<rparr>) of
                 Inl e \<Rightarrow> Inl e
               | Inr s' \<Rightarrow> tri_walk h cl pcmd clip_rect (i + 3) (lx, ly, s')))
       \<and> (uv_differ (uv v0) (uv v1) (uv v2) \<longrightarrow>
            (\<forall>w0 w1 w2.
                fetch cl pcmd (i + 3) = Inr w0 \<and> fetch cl pcmd (i + 4) = Inr w1
                  \<and> fetch cl pcmd (i + 5) = Inr w2 \<longrightarrow>
                (case glyph_position (pos v0) (pos v1) (pos v2) (pos w0) (pos w1) (pos w2) lx ly of
                   (gx, gy) \<Rightarrow>
                     tri_walk h cl pcmd clip_rect i (lx, ly, s) =
                       tri_walk h cl pcmd clip_rect (i + 6)
                         (gx, gy, place_glyph h clip_rect v0 (gx, gy) s)
                     \<and> (\<forall>k \<in> set (drop (length (calls s))
                                      (calls (place_glyph h clip_rect v0 (gx, gy) s))).
                           \<not> is_DrawTriangle k)))
            \<and> ((\<exists>e. fetch cl pcmd (i + 3) = Inl e \<or> fetch cl pcmd (i + 4) = Inl e
                      \<or> fetch cl pcmd (i + 5) = Inl e) \<longrightarrow>
                 tri_walk h cl pcmd clip_rect i (lx, ly, s) = Inl OutOfRange))"
proof (intro conjI impI allI)
  show "uv_differ (uv v0) (uv v1) (uv v2) \<longleftrightarrow>
          \<not> (uv v0 = uv v1 \<and> uv v0 = uv v2) \<or> fst (uv v0) = NaN \<or> snd (uv v0) = NaN"
    by (rule uv_differ_iff)
next
  assume n: "\<not> uv_differ (uv v0) (uv v1) (uv v2)"
  show "tri_walk h cl pcmd clip_rect i (lx, ly, s) =
          (case drawTriangle h (pos v0) (pos v1) (pos v2) (col v0)
                  (s\<lparr>calls := calls s @ [DrawTriangle (pos v0) (pos v1) (pos v2) (col v0)]\<rparr>) of
             Inl e \<Rightarrow> Inl e
           | Inr s' \<Rightarrow> tri_walk h cl pcmd clip_rect (i + 3) (lx, ly, s'))"
    unfolding tri_walk_step [OF assms(1)] tri_body_fill [OF assms(2-4) n]
    by (simp add: fill_branch_def split: sum.splits)
next
  fix w0 w1 w2
  assume d: "uv_differ (uv v0) (uv v1) (uv v2)"
    and f: "fetch cl pcmd (i + 3) = Inr w0 \<and> fetch cl pcmd (i + 4) = Inr w1
              \<and> fetch cl pcmd (i + 5) = Inr w2"
  obtain gx gy where g: "glyph_position (pos v0) (pos v1) (pos v2) (pos w0) (pos w1) (pos w2) lx ly
      = (gx, gy)"
    by (cases "glyph_position (pos v0) (pos v1) (pos v2) (pos w0) (pos w1) (pos w2) lx ly")
  from f have f3: "fetch cl pcmd (i + 3) = Inr w0" and f4: "fetch cl pcmd (i + 4) = Inr w1"
    and f5: "fetch cl pcmd (i + 5) = Inr w2"
    by simp_all
  have "tri_walk h cl pcmd clip_rect i (lx, ly, s) =
          tri_walk h cl pcmd clip_rect (i + 6) (gx, gy, place_glyph h clip_rect v0 (gx, gy) s)"
    unfolding tri_walk_step [OF assms(1)] tri_body_glyph_step [OF assms(2-4) f3 f4 f5 d g]
    by simp
  then show "case glyph_position (pos v0) (pos v1) (pos v2) (pos w0) (pos w1) (pos w2) lx ly of
               (gx, gy) \<Rightarrow>
                 tri_walk h cl pcmd clip_rect i (lx, ly, s) =
                   tri_walk h cl pcmd clip_rect (i + 6)
                     (gx, gy, place_glyph h clip_rect v0 (gx, gy) s)
                 \<and> (\<forall>k \<in> set (drop (length (calls s))
                                  (calls (place_glyph h clip_rect v0 (gx, gy) s))).
                       \<not> is_DrawTriangle k)"
    unfolding g using place_glyph_no_fill [of s h clip_rect v0 "(gx, gy)"] by simp
next
  assume d: "uv_differ (uv v0) (uv v1) (uv v2)"
    and "\<exists>e. fetch cl pcmd (i + 3) = Inl e \<or> fetch cl pcmd (i + 4) = Inl e
             \<or> fetch cl pcmd (i + 5) = Inl e"
  then obtain e where e: "fetch cl pcmd (i + 3) = Inl e \<or> fetch cl pcmd (i + 4) = Inl e
             \<or> fetch cl pcmd (i + 5) = Inl e"
    by blast
  show "tri_walk h cl pcmd clip_rect i (lx, ly, s) = Inl OutOfRange"
    unfolding tri_walk_step [OF assms(1)] tri_body_glyph [OF assms(2-4) d]
      glyph_branch_error [OF e]
    by simp
qed

lemma shared_uv_fetch:
  "fetch (hd (CmdLists shared_uv_pair)) (hd (CmdBuffer (hd (CmdLists shared_uv_pair)))) 0
     = Inr (vert (vec 0 0) (vec (1/2) (1/2)) ''A'')"
  "fetch (hd (CmdLists shared_uv_pair)) (hd (CmdBuffer (hd (CmdLists shared_uv_pair)))) (0 + 1)
     = Inr (vert (vec 1 0) (vec (1/2) (1/2)) ''A'')"
  "fetch (hd (CmdLists shared_uv_pair)) (hd (CmdBuffer (hd (CmdLists shared_uv_pair)))) (0 + 2)
     = Inr (vert (vec 1 1) (vec (1/2) (1/2)) ''A'')"
  by (simp_all add: shared_uv_pair_def one_cmd_def one_list_def fetch_def vec_get_def wrap32_def)

lemma distinct_uv_fetch:
  "fetch (hd (CmdLists distinct_uv_pair)) (hd (CmdBuffer (hd (CmdLists distinct_uv_pair)))) 0
     = Inr (vert (vec 0 0) (vec 0 0) ''A'')"
  "fetch (hd (CmdLists distinct_uv_pair)) (hd (CmdBuffer (hd (CmdLists distinct_uv_pair)))) (0 + 1)
     = Inr (vert (vec 1 0) (vec 1 0) ''A'')"
  "fetch (hd (CmdLists distinct_uv_pair)) (hd (CmdBuffer (hd (CmdLists distinct_uv_pair)))) (0 + 2)
     = Inr (vert (vec 1 1) (vec 1 1) ''A'')"
  by (simp_all add: distinct_uv_pair_def one_cmd_def one_list_def fetch_def vec_get_def wrap32_def)

lemma distinct_uv_partner:
  "fetch (hd (CmdLists distinct_uv_pair)) (hd (CmdBuffer (hd (CmdLists distinct_uv_pair)))) (0 + 3)
     = Inr (vert (vec 0 0) (vec 0 0) ''A'')
   \<and> fetch (hd (CmdLists distinct_uv_pair)) (hd (CmdBuffer (hd (CmdLists distinct_uv_pair)))) (0 + 4)
     = Inr (vert (vec 1 1) (vec 1 1) ''A'')
   \<and> fetch (hd (CmdLists distinct_uv_pair)) (hd (CmdBuffer (hd (CmdLists distinct_uv_pair)))) (0 + 5)
     = Inr (vert (vec 0 1) (vec 0 1) ''A'')"
  by (simp add: distinct_uv_pair_def one_cmd_def one_list_def fetch_def vec_get_def wrap32_def)

text \<open>The first triangle of the pair with one shared texture coordinate is passed to
  \<open>drawTriangle\<close> and the walk goes on at index 3; the first triangle of the pair with
  distinct texture coordinates is placed as a glyph at the mean (0.5, 1) of the six
  positions, painted at the cell (0, 1), and the walk goes on at index 6.\<close>

theorem uv_classification_witness:
  "tri_walk (host_example 10 10) (hd (CmdLists shared_uv_pair))
       (hd (CmdBuffer (hd (CmdLists shared_uv_pair)))) (Fin 0, Fin 0, Fin 10, Fin 10) 0
       (Fin (- 10000), Fin (- 10000), blank_display)
     = (case drawTriangle (host_example 10 10) (vec 0 0) (vec 1 0) (vec 1 1) 0
               (blank_display\<lparr>calls := [DrawTriangle (vec 0 0) (vec 1 0) (vec 1 1) 0]\<rparr>) of
          Inl e \<Rightarrow> Inl e
        | Inr s' \<Rightarrow>
            tri_walk (host_example 10 10) (hd (CmdLists shared_uv_pair))
              (hd (CmdBuffer (hd (CmdLists shared_uv_pair)))) (Fin 0, Fin 0, Fin 10, Fin 10) 3
              (Fin (- 10000), Fin (- 10000), s'))
   \<and> tri_walk (host_example 10 10) (hd (CmdLists distinct_uv_pair))
       (hd (CmdBuffer (hd (CmdLists distinct_uv_pair)))) (Fin 0, Fin 0, Fin 10, Fin 10) 0
       (Fin (- 10000), Fin (- 10000), blank_display)
     = tri_walk (host_example 10 10) (hd (CmdLists distinct_uv_pair))
         (hd (CmdBuffer (hd (CmdLists distinct_uv_pair)))) (Fin 0, Fin 0, Fin 10, Fin 10) 6
         (Fin (1/2), Fin 1,
          paint_glyph (host_example 10 10) (vert (vec 0 0) (vec 0 0) ''A'') 0 1 blank_display)"
proof -
  have cs: "0 < ElemCount (hd (CmdBuffer (hd (CmdLists shared_uv_pair))))"
    by (simp add: shared_uv_pair_def one_cmd_def one_list_def)
  have cd: "0 < ElemCount (hd (CmdBuffer (hd (CmdLists distinct_uv_pair))))"
    by (simp add: distinct_uv_pair_def one_cmd_def one_list_def)
  have same: "\<not> uv_differ (uv (vert (vec 0 0) (vec (1/2) (1/2)) ''A''))
      (uv (vert (vec 1 0) (vec (1/2) (1/2)) ''A'')) (uv (vert (vec 1 1) (vec (1/2) (1/2)) ''A''))"
    by (simp add: uv_differ_def vert_def vec_def fne_def)
  have diff: "uv_differ (uv (vert (vec 0 0) (vec 0 0) ''A''))
      (uv (vert (vec 1 0) (vec 1 0) ''A'')) (uv (vert (vec 1 1) (vec 1 1) ''A''))"
    by (simp add: uv_differ_def vert_def vec_def fne_def)
  have p: "glyph_position (vec 0 0) (vec 1 0) (vec 1 1) (vec 0 0) (vec 1 1) (vec 0 1)
             (Fin (- 10000)) (Fin (- 10000)) = (Fin (1/2), Fin 1)"
    by (simp add: glyph_position_def vec_def fsub_def f32_eval)
  have g: "place_glyph (host_example 10 10) (Fin 0, Fin 0, Fin 10, Fin 10)
             (vert (vec 0 0) (vec 0 0) ''A'') (Fin (1/2), Fin 1) blank_display
           = paint_glyph (host_example 10 10) (vert (vec 0 0) (vec 0 0) ''A'') 0 1 blank_display"
    by (simp add: place_glyph_def glyph_cell_def outside_clip_def f_of_int_def fge_def
        round32_nums)
  from uv_classification [OF cs shared_uv_fetch, of "host_example 10 10"
      "(Fin 0, Fin 0, Fin 10, Fin 10)" "Fin (- 10000)" "Fin (- 10000)" blank_display,
      THEN conjunct2, THEN conjunct1, THEN mp, OF same]
    uv_classification [OF cd distinct_uv_fetch, of "host_example 10 10"
      "(Fin 0, Fin 0, Fin 10, Fin 10)" "Fin (- 10000)" "Fin (- 10000)" blank_display,
      THEN conjunct2, THEN conjunct2, THEN mp, OF diff, THEN conjunct1,
      THEN spec, THEN spec, THEN spec, THEN mp, OF distinct_uv_partner]
  show ?thesis
    by (simp add: vert_def blank_display_def p g [unfolded vert_def blank_display_def]
        cong: sum.case_cong)
qed

text \<open>
  Claim C2 as stated fails: two consecutive triangles whose six vertices share one texture
  coordinate are both passed to \<open>drawTriangle\<close>, and a triangle with pairwise distinct
  texture coordinates is painted as a glyph, without any call of \<open>drawTriangle\<close>.
\<close>

theorem shared_uv_goes_to_fill:
  "map uv (VtxBuffer (hd (CmdLists shared_uv_pair))) = replicate 6 (vec (1/2) (1/2))
   \<and> frame_calls (host_example 10 10) shared_uv_pair blank_display =
       Inr [DrawTriangle (vec 0 0) (vec 1 0) (vec 1 1) 0,
            PaintString \<lparr>ch = CHR 0x00, fg = 7, bg = 0\<rparr> 0 0 '' '',
            PaintString \<lparr>ch = CHR 0x00, fg = 7, bg = 0\<rparr> 1 0 '' '',
            PaintString \<lparr>ch = CHR 0x00, fg = 7, bg = 0\<rparr> 1 1 '' '',
            DrawTriangle (vec 0 0) (vec 1 1) (vec 0 1) 0,
            PaintString \<lparr>ch = CHR 0x00, fg = 7, bg = 0\<rparr> 0 0 '' '',
            PaintString \<lparr>ch = CHR 0x00, fg = 7, bg = 0\<rparr> 0 1 '' '',
            PaintString \<lparr>ch = CHR 0x00, fg = 7, bg = 0\<rparr> 1 1 '' '']
   \<and> map uv (take 3 (VtxBuffer (hd (CmdLists distinct_uv_pair))))
       = [vec 0 0, vec 1 0, vec 1 1]
   \<and> frame_calls (host_example 10 10) distinct_uv_pair blank_display =
       Inr [ReadTile 0 1, PaintTile \<lparr>ch = CHR ''A'', fg = 7, bg = 0\<rparr> 0 1]"
  using shared_uv_eval distinct_uv_eval
  by (simp add: shared_uv_pair_def distinct_uv_pair_def one_cmd_def one_list_def vert_def
      eval_nat_numeral)











text \<open>The sums are rounded. Five positions at column 3.5 and one at \<open>3.5 - 3 * 2^-22\<close> have
  the mean \<open>3.5 - 2^-23\<close>, less than half a unit from 3; in single precision their sum is
  21 and their mean 3.5, which is not less than half a unit from 3.\<close>

lemma glyph_mean_is_rounded:
  "glyph_mean (Fin (7/2), Fin 5) (Fin (7/2), Fin 5) (Fin (7/2), Fin 5) (Fin (7/2), Fin 5)
     (Fin (7/2), Fin 5) (Fin (7/2 - 3 / 2 ^ 22), Fin 5) = (Fin (7/2), Fin (11/2))
   \<and> \<not> close_to (Fin (7/2), Fin (11/2)) (Fin 3) (Fin (11/2))
   \<and> \<bar>(7/2 + 7/2 + 7/2 + 7/2 + 7/2 + (7/2 - 3 / 2 ^ 22)) / 6 - 3\<bar> < (1 / 2 :: real)"
  by (simp add: glyph_mean_def close_to_def fsub_def f32_eval)



text \<open>
  Claim C7. For every glyph primitive that reaches the painting code, that is whose target
  cell is not outside the clip rectangle of its command, the loop body returns normally,
  reads the cell and paints it once: with the decoded character when the payload
  translates to exactly one unit, with \<open>?\<close> otherwise, in both cases with the foreground
  taken from the first vertex's colour and the background the cell had before.
\<close>

theorem glyph_paint_or_placeholder:
  assumes "fetch cl pcmd i = Inr v0" "fetch cl pcmd (i + 1) = Inr v1" "fetch cl pcmd (i + 2) = Inr v2"
    and "fetch cl pcmd (i + 3) = Inr w0" "fetch cl pcmd (i + 4) = Inr w1"
    and "fetch cl pcmd (i + 5) = Inr w2"
    and "uv_differ (uv v0) (uv v1) (uv v2)"
    and "glyph_position (pos v0) (pos v1) (pos v2) (pos w0) (pos w1) (pos w2) lx ly = (gx, gy)"
    and "glyph_cell (gx, gy) = (xx, yy)"
    and "\<not> outside_clip clip_rect xx yy"
  shows "\<exists>s'. tri_body h cl pcmd clip_rect i (lx, ly, s) = Inr (True, gx, gy, s')
     \<and> calls s' = calls s @ [ReadTile xx yy, PaintTile (glyph_pen h v0 (screen s (xx, yy))) xx yy]
     \<and> (in_display h xx yy \<longrightarrow> screen s' (xx, yy) = glyph_pen h v0 (screen s (xx, yy)))
     \<and> ch (glyph_pen h v0 (screen s (xx, yy)))
          = (if length (UTF2DF h (c_string (chrs v0))) = 1
             then UTF2DF h (c_string (chrs v0)) ! 0 else CHR ''?'')
     \<and> fg (glyph_pen h v0 (screen s (xx, yy)))
          = to_int8 (fst (ColorConvertU32ToFloat4 h (col v0)))
     \<and> bg (glyph_pen h v0 (screen s (xx, yy))) = bg (screen s (xx, yy))"
proof -
  have "place_glyph h clip_rect v0 (gx, gy) s = paint_glyph h v0 xx yy s"
    using assms(9) assms(10) by (simp add: place_glyph_def)
  then have "tri_body h cl pcmd clip_rect i (lx, ly, s)
          = Inr (True, gx, gy, paint_glyph h v0 xx yy s)"
    using tri_body_glyph_step [OF assms(1-8), of h clip_rect s] by simp
  then show ?thesis
    by (simp add: paint_glyph_calls paint_glyph_screen writeCell_def glyph_pen_def)
qed

lemma unmapped_glyph_fetch:
  "fetch (hd (CmdLists unmapped_glyph)) (hd (CmdBuffer (hd (CmdLists unmapped_glyph)))) 0
     = Inr (vert (vec (9/2) (9/2)) (vec 0 0) ''ab'')"
  "fetch (hd (CmdLists unmapped_glyph)) (hd (CmdBuffer (hd (CmdLists unmapped_glyph)))) (0 + 1)
     = Inr (vert (vec (11/2) (9/2)) (vec 1 0) ''ab'')"
  "fetch (hd (CmdLists unmapped_glyph)) (hd (CmdBuffer (hd (CmdLists unmapped_glyph)))) (0 + 2)
     = Inr (vert (vec (11/2) (11/2)) (vec 1 1) ''ab'')"
  "fetch (hd (CmdLists unmapped_glyph)) (hd (CmdBuffer (hd (CmdLists unmapped_glyph)))) (0 + 3)
     = Inr (vert (vec (9/2) (9/2)) (vec 0 0) ''ab'')"
  "fetch (hd (CmdLists unmapped_glyph)) (hd (CmdBuffer (hd (CmdLists unmapped_glyph)))) (0 + 4)
     = Inr (vert (vec (11/2) (11/2)) (vec 1 1) ''ab'')"
  "fetch (hd (CmdLists unmapped_glyph)) (hd (CmdBuffer (hd (CmdLists unmapped_glyph)))) (0 + 5)
     = Inr (vert (vec (9/2) (11/2)) (vec 0 1) ''ab'')"
  by (simp_all add: unmapped_glyph_def one_cmd_def one_list_def glyph_at_def fetch_def vec_get_def wrap32_def
      vert_def)

lemma distinct_uv_second:
  "fetch (hd (CmdLists distinct_uv_pair)) (hd (CmdBuffer (hd (CmdLists distinct_uv_pair)))) (0 + 3)
     = Inr (vert (vec 0 0) (vec 0 0) ''A'')"
  "fetch (hd (CmdLists distinct_uv_pair)) (hd (CmdBuffer (hd (CmdLists distinct_uv_pair)))) (0 + 4)
     = Inr (vert (vec 1 1) (vec 1 1) ''A'')"
  "fetch (hd (CmdLists distinct_uv_pair)) (hd (CmdBuffer (hd (CmdLists distinct_uv_pair)))) (0 + 5)
     = Inr (vert (vec 0 1) (vec 0 1) ''A'')"
  using distinct_uv_partner by simp_all

text \<open>A payload of two units is painted as \<open>?\<close>, a payload of one unit as that unit; in
  both cases the cell keeps its background 0 and takes the foreground 7 of the colour.\<close>

theorem glyph_paint_or_placeholder_witness:
  "length (UTF2DF (host_example 10 10) (c_string ''ab'')) = 2
   \<and> (\<exists>s'. tri_body (host_example 10 10) (hd (CmdLists unmapped_glyph))
           (hd (CmdBuffer (hd (CmdLists unmapped_glyph)))) (Fin 0, Fin 0, Fin 10, Fin 10) 0
           (Fin (- 10000), Fin (- 10000), blank_display) = Inr (True, Fin 5, Fin (11/2), s')
      \<and> calls s' = [ReadTile 5 5, PaintTile \<lparr>ch = CHR ''?'', fg = 7, bg = 0\<rparr> 5 5]
      \<and> screen s' (5, 5) = \<lparr>ch = CHR ''?'', fg = 7, bg = 0\<rparr>)
   \<and> length (UTF2DF (host_example 10 10) (c_string ''A'')) = 1
   \<and> (\<exists>s'. tri_body (host_example 10 10) (hd (CmdLists distinct_uv_pair))
           (hd (CmdBuffer (hd (CmdLists distinct_uv_pair)))) (Fin 0, Fin 0, Fin 10, Fin 10) 0
           (Fin (- 10000), Fin (- 10000), blank_display) = Inr (True, Fin (1/2), Fin 1, s')
      \<and> calls s' = [ReadTile 0 1, PaintTile \<lparr>ch = CHR ''A'', fg = 7, bg = 0\<rparr> 0 1]
      \<and> screen s' (0, 1) = \<lparr>ch = CHR ''A'', fg = 7, bg = 0\<rparr>)"
proof -
  have d: "uv_differ (uv (vert (vec (9/2) (9/2)) (vec 0 0) ''ab''))
     (uv (vert (vec (11/2) (9/2)) (vec 1 0) ''ab'')) (uv (vert (vec (11/2) (11/2)) (vec 1 1) ''ab''))"
    by (simp add: uv_differ_def vert_def vec_def fne_def)
  have p: "glyph_position (pos (vert (vec (9/2) (9/2)) (vec 0 0) ''ab''))
     (pos (vert (vec (11/2) (9/2)) (vec 1 0) ''ab''))
     (pos (vert (vec (11/2) (11/2)) (vec 1 1) ''ab''))
     (pos (vert (vec (9/2) (9/2)) (vec 0 0) ''ab''))
     (pos (vert (vec (11/2) (11/2)) (vec 1 1) ''ab''))
     (pos (vert (vec (9/2) (11/2)) (vec 0 1) ''ab''))
     (Fin (- 10000)) (Fin (- 10000)) = (Fin 5, Fin (11/2))"
    by (simp add: glyph_position_def vert_def vec_def fsub_def f32_eval)
  have g: "glyph_cell (Fin 5, Fin (11/2)) = (5, 5)"
    by (simp add: glyph_cell_def)
  have c: "\<not> outside_clip (Fin 0, Fin 0, Fin 10, Fin 10) 5 5"
    by (simp add: outside_clip_def f_of_int_def fge_def round32_nums)
  have d': "uv_differ (uv (vert (vec 0 0) (vec 0 0) ''A''))
      (uv (vert (vec 1 0) (vec 1 0) ''A'')) (uv (vert (vec 1 1) (vec 1 1) ''A''))"
    by (simp add: uv_differ_def vert_def vec_def fne_def)
  have p': "glyph_position (pos (vert (vec 0 0) (vec 0 0) ''A''))
     (pos (vert (vec 1 0) (vec 1 0) ''A'')) (pos (vert (vec 1 1) (vec 1 1) ''A''))
     (pos (vert (vec 0 0) (vec 0 0) ''A'')) (pos (vert (vec 1 1) (vec 1 1) ''A''))
     (pos (vert (vec 0 1) (vec 0 1) ''A''))
     (Fin (- 10000)) (Fin (- 10000)) = (Fin (1/2), Fin 1)"
    by (simp add: glyph_position_def vert_def vec_def fsub_def f32_eval)
  have g': "glyph_cell (Fin (1/2), Fin 1) = (0, 1)"
    by (simp add: glyph_cell_def)
  have c': "\<not> outside_clip (Fin 0, Fin 0, Fin 10, Fin 10) 0 1"
    by (simp add: outside_clip_def f_of_int_def fge_def round32_nums)
  have u: "length (UTF2DF (host_example 10 10) (c_string ''ab'')) = 2"
    "length (UTF2DF (host_example 10 10) (c_string ''A'')) = 1"
    by (simp_all add: host_example_def c_string_def)
  from glyph_paint_or_placeholder [OF unmapped_glyph_fetch d p g c, of "host_example 10 10"
      blank_display]
  have a: "\<exists>s'. tri_body (host_example 10 10) (hd (CmdLists unmapped_glyph))
           (hd (CmdBuffer (hd (CmdLists unmapped_glyph)))) (Fin 0, Fin 0, Fin 10, Fin 10) 0
           (Fin (- 10000), Fin (- 10000), blank_display) = Inr (True, Fin 5, Fin (11/2), s')
      \<and> calls s' = [ReadTile 5 5, PaintTile \<lparr>ch = CHR ''?'', fg = 7, bg = 0\<rparr> 5 5]
      \<and> screen s' (5, 5) = \<lparr>ch = CHR ''?'', fg = 7, bg = 0\<rparr>"
    by (auto simp: glyph_pen_def vert_def c_string_def host_example_def blank_display_def
        to_int8_def in_display_def)
  from glyph_paint_or_placeholder [OF distinct_uv_fetch distinct_uv_second d' p' g' c',
      of "host_example 10 10" blank_display]
  have b: "\<exists>s'. tri_body (host_example 10 10) (hd (CmdLists distinct_uv_pair))
           (hd (CmdBuffer (hd (CmdLists distinct_uv_pair)))) (Fin 0, Fin 0, Fin 10, Fin 10) 0
           (Fin (- 10000), Fin (- 10000), blank_display) = Inr (True, Fin (1/2), Fin 1, s')
      \<and> calls s' = [ReadTile 0 1, PaintTile \<lparr>ch = CHR ''A'', fg = 7, bg = 0\<rparr> 0 1]
      \<and> screen s' (0, 1) = \<lparr>ch = CHR ''A'', fg = 7, bg = 0\<rparr>"
    by (auto simp: glyph_pen_def vert_def c_string_def host_example_def blank_display_def
        to_int8_def in_display_def)
  from u a b show ?thesis by blast
qed

end
